theory Spec2Isabelle
  imports Main "HOL-Library.Multiset" "HOL-Library.Char_ord" "HOL-Library.List_Lexorder"
    "HOL-Library.Sublist" "HOL-Library.Word"
begin

unbundle bit_operations_syntax

section \<open>Errors and faults\<close>

text \<open>
  A Go \<^verbatim>\<open>error\<close> value. \<^verbatim>\<open>fmt.Errorf\<close> results are kept as the format string with
  its arguments. \<^verbatim>\<open>ErrSilent\<close> is a package-level sentinel compared by identity, so it
  is a constructor of its own. \<^verbatim>\<open>ExecError\<close> is \<^verbatim>\<open>*exec.Error\<close> (the executable was
  not found), \<^verbatim>\<open>ExitError\<close> is \<^verbatim>\<open>*exec.ExitError\<close> with the wait status of the
  child, \<^verbatim>\<open>OtherError\<close> is any error value of a type this package does not inspect.
\<close>

datatype WaitStatus = Exited int | Signaled int

datatype error =
    ErrSilent
  | RcPassthroughError int
  | UnrecognizedCommand string
  | Errorf string "string list"
  | ExecError string
  | ExitError WaitStatus
  | OtherError string

text \<open>
  A run-time panic, after which the call does not return: a nil dereference, a slice
  bound out of range, \<^verbatim>\<open>panic(err.Error())\<close> with the error whose message is the
  payload, or \<^verbatim>\<open>panic\<close> with a literal message.
\<close>

datatype fault = NilDereference | SliceOutOfRange | PanicError error | PanicString string

section \<open>Actions\<close>

record Info =
  info_Name :: string
  info_Purpose :: string
  info_Aliases :: "string list"

type_synonym MissingCallback = "string \<Rightarrow> string list \<Rightarrow> error option"

record missingCommand =
  mc_Callback :: MissingCallback
  mc_SuperName :: string
  mc_Name :: string
  mc_Args :: "string list"

text \<open>
  A value of the interface type \<^verbatim>\<open>Command\<close>: nil, a \<^verbatim>\<open>*SuperCommand\<close> (an address in
  the store of super-commands), a \<^verbatim>\<open>*missingCommand\<close> (built once by
  \<^verbatim>\<open>SuperCommand.Init\<close> and never written again, so the value stands for the pointer),
  or a pointer to a command of any other type, identified by its address.
\<close>

datatype Command =
    NilCommand
  | SuperCommandPtr nat
  | missingCommandPtr missingCommand
  | OtherCommandPtr nat

record Action =
  Name :: string
  AliasedName :: string
  Command :: Command
  Aliases :: "string list"
  Replacement :: string

definition zeroAction :: Action where
  "zeroAction = \<lparr>Name = [], AliasedName = [], Command = NilCommand, Aliases = [],
     Replacement = []\<rparr>"

text \<open>
  \<^verbatim>\<open>newActionFromCommand\<close>; \<open>info\<close> is what \<^verbatim>\<open>cmd.Info()\<close> returned (a pointer,
  \<open>None\<close> when nil). Reading \<^verbatim>\<open>info.Name\<close> through a nil pointer panics.
\<close>

definition newActionFromCommand :: "Command \<Rightarrow> Info option \<Rightarrow> fault + Action" where
  "newActionFromCommand cmd info =
     (case info of
        None \<Rightarrow> Inl NilDereference
      | Some i \<Rightarrow> Inr \<lparr>Name = info_Name i, AliasedName = [], Command = cmd,
                      Aliases = info_Aliases i, Replacement = []\<rparr>)"

definition Validate :: "Action \<Rightarrow> error option" where
  "Validate a =
     (if Name a = [] then Some (Errorf ''action missing name'' [])
      else if Command a = NilCommand then Some (Errorf ''action missing command'' [])
      else None)"

definition NewAlias :: "Action \<Rightarrow> string \<Rightarrow> Action" where
  "NewAlias a alias = \<lparr>Name = alias, AliasedName = Name a, Command = Command a,
     Aliases = [], Replacement = []\<rparr>"

section \<open>The registry\<close>

record Registry =
  order :: "string list"
  actions :: "string \<rightharpoonup> Action"
  aliases :: "string \<rightharpoonup> string"
  defaultName :: string

text \<open>
  The part of a \<^verbatim>\<open>SuperCommand\<close> that resolution reads. \<open>subcmds\<close> is a pointer to
  the super-command's own registry (\<open>None\<close> when nil).
\<close>

record SuperCommand =
  sc_Name :: string
  sc_Purpose :: string
  sc_Aliases :: "string list"
  sc_version :: string
  subcmds :: "Registry option"
  sc_action :: Action
  showDescription :: bool
  showHelp :: bool
  missingCallback :: "MissingCallback option"

text \<open>The store of super-commands, by address.\<close>

type_synonym heap = "nat \<Rightarrow> SuperCommand"

definition emptyRegistry :: Registry where
  "emptyRegistry = \<lparr>order = [], actions = Map.empty, aliases = Map.empty, defaultName = []\<rparr>"

definition Names :: "Registry \<Rightarrow> string list" where
  "Names reg = order reg"

definition lookUp :: "Registry \<Rightarrow> string \<Rightarrow> Action \<times> bool" where
  "lookUp reg name =
     (case actions reg name of
        Some action \<Rightarrow> (action, True)
      | None \<Rightarrow>
          (case aliases reg name of
             Some aliased \<Rightarrow>
               (case actions reg aliased of
                  Some action \<Rightarrow> (NewAlias action name, True)
                | None \<Rightarrow> (zeroAction, False))
           | None \<Rightarrow> (zeroAction, False)))"

text \<open>
  The loop of \<^verbatim>\<open>LookUp\<close>: \<open>reg\<close> is the registry pointer of the current level,
  \<open>action\<close> the last action resolved. Every \<^verbatim>\<open>break\<close> leaves the loop with the
  action held at that moment.
\<close>

fun LookUp_loop :: "heap \<Rightarrow> Registry option \<Rightarrow> string list \<Rightarrow> Action \<Rightarrow> Action" where
  "LookUp_loop h reg [] action = action"
| "LookUp_loop h None (name # path) action = action"
| "LookUp_loop h (Some reg) (name # path) action =
     (case lookUp reg name of
        (next, False) \<Rightarrow> action
      | (next, True) \<Rightarrow>
          (case Command next of
             SuperCommandPtr p \<Rightarrow> LookUp_loop h (subcmds (h p)) path next
           | _ \<Rightarrow> next))"

definition LookUp :: "heap \<Rightarrow> Registry \<Rightarrow> string list \<Rightarrow> Action \<times> bool" where
  "LookUp h reg path =
     (if path = [] then lookUp reg (defaultName reg)
      else let action = LookUp_loop h (Some reg) path zeroAction
           in if Name action \<noteq> [] then (action, True) else (action, False))"

text \<open>
  The mutating methods return the registry as it is after the call, with the error
  (\<open>None\<close> for nil).
\<close>

definition Add :: "heap \<Rightarrow> Registry \<Rightarrow> Action \<Rightarrow> Registry \<times> error option" where
  "Add h reg action =
     (case Validate action of
        Some err \<Rightarrow> (reg, Some err)
      | None \<Rightarrow>
          if snd (LookUp h reg [Name action])
          then (reg, Some (Errorf ''command %q already registered'' [Name action]))
          else (reg\<lparr>actions := (actions reg)(Name action \<mapsto> action),
                     order := order reg @ [Name action]\<rparr>, None))"

definition AddAlias :: "heap \<Rightarrow> Registry \<Rightarrow> string \<Rightarrow> string \<Rightarrow> Registry \<times> error option" where
  "AddAlias h reg name alias =
     (if actions reg name = None then (reg, Some (Errorf ''action %q not found'' [name]))
      else if snd (LookUp h reg [alias])
      then (reg, Some (Errorf ''action %q already added'' [alias]))
      else (reg\<lparr>aliases := (aliases reg)(alias \<mapsto> name), order := order reg @ [alias]\<rparr>, None))"

text \<open>
  \<^verbatim>\<open>removeString\<close> scans for the first index holding the target and cuts that slot
  out; \<open>i\<close> is the loop index.
\<close>

function removeString_from :: "string list \<Rightarrow> string \<Rightarrow> nat \<Rightarrow> string list \<times> bool" where
  "removeString_from items target i =
     (if i < length items then
        (if items ! i = target then
           (if i = length items - 1 then (take i items, True)
            else (take i items @ drop (i + 1) items, True))
         else removeString_from items target (i + 1))
      else (items, False))"
  by pat_completeness auto
termination
  by (relation "measure (\<lambda>(items, target, i). length items - i)") auto

declare removeString_from.simps [simp del]

definition removeString :: "string list \<Rightarrow> string \<Rightarrow> string list \<times> bool" where
  "removeString items target = removeString_from items target 0"

definition remove :: "Registry \<Rightarrow> string \<Rightarrow> Registry \<times> Action" where
  "remove reg name =
     (case actions reg name of
        None \<Rightarrow>
          (case aliases reg name of
             None \<Rightarrow> (reg, zeroAction)
           | Some aliased \<Rightarrow>
               (reg\<lparr>aliases := (aliases reg)(name := None),
                     order := fst (removeString (order reg) name)\<rparr>, zeroAction))
      | Some action \<Rightarrow>
          (reg\<lparr>actions := (actions reg)(name := None),
                order := fst (removeString (order reg) name)\<rparr>, action))"

text \<open>
  The loop of \<^verbatim>\<open>AddWithAliases\<close> over the aliases still to add; \<open>added\<close> holds the
  aliases added so far in this call.
\<close>

fun AddWithAliases_loop ::
  "heap \<Rightarrow> Registry \<Rightarrow> Action \<Rightarrow> string list \<Rightarrow> string list \<Rightarrow> Registry \<times> error option" where
  "AddWithAliases_loop h reg action [] added = (reg, None)"
| "AddWithAliases_loop h reg action (alias # rest) added =
     (case AddAlias h reg (Name action) alias of
        (reg', Some err) \<Rightarrow>
          (foldl (\<lambda>r a. fst (remove r a)) (fst (remove reg' (Name action))) added, Some err)
      | (reg', None) \<Rightarrow> AddWithAliases_loop h reg' action rest (added @ [alias]))"

definition AddWithAliases :: "heap \<Rightarrow> Registry \<Rightarrow> Action \<Rightarrow> Registry \<times> error option" where
  "AddWithAliases h reg action =
     (case Add h reg action of
        (reg', Some err) \<Rightarrow> (reg', Some err)
      | (reg', None) \<Rightarrow> AddWithAliases_loop h reg' action (Aliases action) [])"

fun NewRegistry_loop :: "heap \<Rightarrow> Registry \<Rightarrow> Action list \<Rightarrow> error + Registry" where
  "NewRegistry_loop h reg [] = Inr reg"
| "NewRegistry_loop h reg (action # initial) =
     (case AddWithAliases h reg action of
        (reg', Some err) \<Rightarrow> Inl err
      | (reg', None) \<Rightarrow> NewRegistry_loop h reg' initial)"

definition NewRegistry :: "heap \<Rightarrow> Action list \<Rightarrow> error + Registry" where
  "NewRegistry h initial = NewRegistry_loop h emptyRegistry initial"

definition NewRegistryWithDefault :: "heap \<Rightarrow> Action \<Rightarrow> error + Registry" where
  "NewRegistryWithDefault h dflt =
     (case NewRegistry h [dflt] of
        Inl err \<Rightarrow> Inl err
      | Inr reg \<Rightarrow> Inr (reg\<lparr>defaultName := Name dflt\<rparr>))"


text \<open>
  \<^verbatim>\<open>LookUp\<close> called through the pointer \<^verbatim>\<open>c.subcmds\<close>: on a nil pointer the empty
  path reads \<^verbatim>\<open>reg.defaultName\<close> and panics, a non-empty path leaves the loop at once.
\<close>

definition LookUp_ptr :: "heap \<Rightarrow> Registry option \<Rightarrow> string list \<Rightarrow> fault + Action \<times> bool" where
  "LookUp_ptr h regp path =
     (case regp of
        Some reg \<Rightarrow> Inr (LookUp h reg path)
      | None \<Rightarrow>
          if path = [] then Inl NilDereference
          else let action = LookUp_loop h None path zeroAction
               in Inr (if Name action \<noteq> [] then (action, True) else (action, False)))"

section \<open>The missing command\<close>

definition missingCommand_Info :: "missingCommand \<Rightarrow> Info option" where
  "missingCommand_Info c = None"

definition missingCommand_Run :: "missingCommand \<Rightarrow> error option" where
  "missingCommand_Run c =
     (case mc_Callback c (mc_Name c) (mc_Args c) of
        Some (UnrecognizedCommand n) \<Rightarrow>
          Some (UnrecognizedCommand (mc_SuperName c @ '' '' @ mc_Name c))
      | err \<Rightarrow> err)"

section \<open>The super-command\<close>

text \<open>
  Modelled from the spec: \<^verbatim>\<open>CheckEmpty\<close> is declared in a file of the package that is
  missing here. It succeeds when no positional argument is left; extra arguments are
  an error.
\<close>

definition CheckEmpty :: "string list \<Rightarrow> error option" where
  "CheckEmpty args = (if args = [] then None else Some (Errorf ''unrecognized args: %q'' args))"

text \<open>
  Modelled from the spec: \<^verbatim>\<open>NewRcPassthroughError\<close> is declared in a file of the package
  that is missing here. The pass-through error carries a literal process exit status as
  its sole payload.
\<close>

definition NewRcPassthroughError :: "int \<Rightarrow> error" where
  "NewRcPassthroughError code = RcPassthroughError code"

text \<open>
  Modelled from the spec: \<^verbatim>\<open>IsRcPassthroughError\<close> is declared in a file of the package
  that is missing here. It recognises exactly the pass-through errors. The silent
  sentinel \<^verbatim>\<open>ErrSilent\<close>, declared in the same file, is the constructor of that name.
\<close>

definition IsRcPassthroughError :: "error \<Rightarrow> bool" where
  "IsRcPassthroughError err = (case err of RcPassthroughError code \<Rightarrow> True | _ \<Rightarrow> False)"

text \<open>
  \<^verbatim>\<open>Action.Init\<close> and \<^verbatim>\<open>Action.Run\<close> call the method of the wrapped command; on a
  nil interface the call panics. \<open>cmdInit\<close> and \<open>cmdRun\<close> stand for the methods of
  the command types defined by the users of the package (and of nested
  super-commands); a \<^verbatim>\<open>missingCommand\<close> takes \<^verbatim>\<open>Init\<close> from \<^verbatim>\<open>CommandBase\<close> like
  any other command and has the \<^verbatim>\<open>Run\<close> above.
\<close>

definition Action_Init ::
  "(Command \<Rightarrow> string list \<Rightarrow> error option) \<Rightarrow> Action \<Rightarrow> string list \<Rightarrow> fault + error option" where
  "Action_Init cmdInit a args =
     (if Command a = NilCommand then Inl NilDereference else Inr (cmdInit (Command a) args))"

definition Action_Run :: "(Command \<Rightarrow> error option) \<Rightarrow> Action \<Rightarrow> fault + error option" where
  "Action_Run cmdRun a =
     (case Command a of
        NilCommand \<Rightarrow> Inl NilDereference
      | missingCommandPtr mc \<Rightarrow> Inr (missingCommand_Run mc)
      | cmd \<Rightarrow> Inr (cmdRun cmd))"

text \<open>
  \<^verbatim>\<open>SuperCommand.Init\<close>. The flag library is outside the package: \<open>parseFlags\<close>
  stands for setting up the flag set of the selected command and parsing the remaining
  arguments against it (lines 341 to 352 of the method); given the command, the current
  value of \<^verbatim>\<open>showHelp\<close> and the arguments, it returns the error or the arguments left
  over, with the value of \<^verbatim>\<open>showHelp\<close> after the parse. The result is the super-command after the call with
  the returned error.
\<close>

definition Init ::
  "heap \<Rightarrow> (Command \<Rightarrow> string list \<Rightarrow> error option) \<Rightarrow>
   (Command \<Rightarrow> bool \<Rightarrow> string list \<Rightarrow> (error + string list) \<times> bool) \<Rightarrow>
   SuperCommand \<Rightarrow> string list \<Rightarrow> fault + SuperCommand \<times> error option" where
  "Init h cmdInit parseFlags c args =
     (if showDescription c then Inr (c, CheckEmpty args)
      else case args of
        [] \<Rightarrow>
          (case LookUp_ptr h (subcmds c) [] of
             Inl f \<Rightarrow> Inl f
           | Inr (action, found) \<Rightarrow>
               (case Action_Init cmdInit action [] of
                  Inl f \<Rightarrow> Inl f
                | Inr err \<Rightarrow> Inr (c\<lparr>sc_action := action\<rparr>, err)))
      | name # rest \<Rightarrow>
          (case LookUp_ptr h (subcmds c) [name] of
             Inl f \<Rightarrow> Inl f
           | Inr (action, found) \<Rightarrow>
               if \<not> found then
                 (case missingCallback c of
                    None \<Rightarrow>
                      Inr (c, Some (Errorf ''unrecognized command: %s %s'' [sc_Name c, name]))
                  | Some callback \<Rightarrow>
                      (let mc = \<lparr>mc_Callback = callback, mc_SuperName = sc_Name c,
                                 mc_Name = name, mc_Args = rest\<rparr>
                       in case newActionFromCommand (missingCommandPtr mc) (missingCommand_Info mc) of
                            Inl f \<Rightarrow> Inl f
                          | Inr a \<Rightarrow> Inr (c\<lparr>sc_action := a\<rparr>, None)))
               else
                 (case parseFlags (Command action) (showHelp c) rest of
                    (Inl err, help) \<Rightarrow>
                      Inr (c\<lparr>sc_action := action, showHelp := help\<rparr>, Some err)
                  | (Inr args', help) \<Rightarrow>
                      if help then
                        (case LookUp_ptr h (subcmds c) [''help''] of
                           Inl f \<Rightarrow> Inl f
                         | Inr (helpAction, helpFound) \<Rightarrow>
                             (case Action_Init cmdInit helpAction [Name action] of
                                Inl f \<Rightarrow> Inl f
                              | Inr err \<Rightarrow>
                                  Inr (c\<lparr>sc_action := helpAction, showHelp := help\<rparr>, err)))
                      else
                        (case Action_Init cmdInit action args' of
                           Inl f \<Rightarrow> Inl f
                         | Inr err \<Rightarrow> Inr (c\<lparr>sc_action := action, showHelp := help\<rparr>, err)))))"

text \<open>
  \<^verbatim>\<open>SuperCommand.run\<close>: the error of the selected action is classified; what this
  layer logs is appended to the log.
\<close>

datatype logEntry = LogErrorf error | LogInfof string

definition run ::
  "(Command \<Rightarrow> error option) \<Rightarrow> SuperCommand \<Rightarrow> logEntry list \<Rightarrow> fault + error option \<times> logEntry list" where
  "run cmdRun c log =
     (case Action_Run cmdRun (sc_action c) of
        Inl f \<Rightarrow> Inl f
      | Inr err \<Rightarrow>
          (case err of
             None \<Rightarrow> Inr (err, log @ [LogInfof ''command finished''])
           | Some e \<Rightarrow>
               if e \<noteq> ErrSilent then
                 (if \<not> IsRcPassthroughError e then Inr (Some ErrSilent, log @ [LogErrorf e])
                  else Inr (err, log @ [LogErrorf e]))
               else Inr (err, log @ [LogInfof ''command finished''])))"

text \<open>
  \<^verbatim>\<open>Register\<close> and \<^verbatim>\<open>RegisterDeprecated\<close> on the super-command at address \<open>p\<close>;
  \<open>info\<close> is what \<^verbatim>\<open>subcmd.Info()\<close> returns. A call that returns gives the store
  with the registry of the super-command updated.
\<close>

definition AddWithAliases_ptr ::
  "heap \<Rightarrow> nat \<Rightarrow> Action \<Rightarrow> fault + heap" where
  "AddWithAliases_ptr h p action =
     (case subcmds (h p) of
        None \<Rightarrow>
          (case Validate action of
             Some err \<Rightarrow> Inl (PanicError err)
           | None \<Rightarrow> Inl NilDereference)
      | Some reg \<Rightarrow>
          (case AddWithAliases h reg action of
             (reg', Some err) \<Rightarrow> Inl (PanicError err)
           | (reg', None) \<Rightarrow> Inr (h(p := (h p)\<lparr>subcmds := Some reg'\<rparr>))))"

definition Register :: "heap \<Rightarrow> nat \<Rightarrow> Command \<Rightarrow> Info option \<Rightarrow> fault + heap" where
  "Register h p subcmd info =
     (if subcmd = NilCommand then Inr h
      else case newActionFromCommand subcmd info of
             Inl f \<Rightarrow> Inl f
           | Inr action \<Rightarrow> AddWithAliases_ptr h p action)"

record DeprecationCheck =
  Deprecated :: "bool \<times> string"
  Obsolete :: bool

definition RegisterDeprecated ::
  "heap \<Rightarrow> nat \<Rightarrow> Command \<Rightarrow> Info option \<Rightarrow> DeprecationCheck option \<Rightarrow> fault + heap" where
  "RegisterDeprecated h p subcmd info check =
     (if subcmd = NilCommand then Inr h
      else case newActionFromCommand subcmd info of
             Inl f \<Rightarrow> Inl f
           | Inr action \<Rightarrow>
               if check \<noteq> None \<and> Obsolete (the check) then Inr h
               else case check of
                      None \<Rightarrow> Inl NilDereference
                    | Some ch \<Rightarrow>
                        AddWithAliases_ptr h p
                          (if fst (Deprecated ch) then action\<lparr>Replacement := snd (Deprecated ch)\<rparr>
                           else action))"


section \<open>Plugins\<close>

record Plugins =
  Prefix :: string
  IgnoredFlags :: "string list"
  Env :: "string list"
  Title :: string

record PluginCommand =
  plugin_name :: string
  plugin_args :: "string list"
  plugin_env :: "string list"

text \<open>
  \<^verbatim>\<open>extractIgnoredArgs\<close>; \<open>nextArg\<close> is the loop index. The inner loop over the
  ignored flags stops at the first one equal to the argument, so it is a membership
  test.
\<close>

function extractIgnoredArgs_from ::
  "string list \<Rightarrow> string list \<Rightarrow> nat \<Rightarrow> string list \<Rightarrow> string list" where
  "extractIgnoredArgs_from flags args nextArg ignoredArgs =
     (if nextArg < length args then
        (if args ! nextArg \<in> set flags then
           (if nextArg + 1 < length args
            then extractIgnoredArgs_from flags args (nextArg + 2)
                   (ignoredArgs @ [args ! nextArg, args ! (nextArg + 1)])
            else extractIgnoredArgs_from flags args (nextArg + 1) (ignoredArgs @ [args ! nextArg]))
         else extractIgnoredArgs_from flags args (nextArg + 1) ignoredArgs)
      else ignoredArgs)"
  by pat_completeness auto
termination
  by (relation "measure (\<lambda>(flags, args, nextArg, ignoredArgs). length args - nextArg)") auto

declare extractIgnoredArgs_from.simps [simp del]

definition extractIgnoredArgs :: "Plugins \<Rightarrow> string list \<Rightarrow> string list" where
  "extractIgnoredArgs p args = extractIgnoredArgs_from (IgnoredFlags p) args 0 []"

definition PluginCommand_Init :: "PluginCommand \<Rightarrow> string list \<Rightarrow> PluginCommand \<times> error option" where
  "PluginCommand_Init c args = (c\<lparr>plugin_args := args\<rparr>, None)"

text \<open>
  \<^verbatim>\<open>PluginCommand.Run\<close>. \<open>osRun\<close> is the operating system: what
  \<^verbatim>\<open>exec.Command(name, args...).Run()\<close> returns for the given name, arguments and extra
  environment (nil when the child exits with status 0, an \<^verbatim>\<open>*exec.ExitError\<close> when it
  ends otherwise, an \<^verbatim>\<open>*exec.Error\<close> when the executable is not found).
\<close>

definition PluginCommand_Run ::
  "(string \<Rightarrow> string list \<Rightarrow> string list \<Rightarrow> error option) \<Rightarrow> PluginCommand \<Rightarrow> error option" where
  "PluginCommand_Run osRun c =
     (let err = osRun (plugin_name c) (plugin_args c) (plugin_env c)
      in case err of
           Some (ExitError status) \<Rightarrow>
             (case status of
                Exited code \<Rightarrow> Some (NewRcPassthroughError code)
              | Signaled sig \<Rightarrow> err)
         | _ \<Rightarrow> err)"

text \<open>
  \<^verbatim>\<open>Plugins.RunPlugin\<close>. \<open>flagsParse\<close> is the flag library parsing the extracted
  arguments against the flag set of the plugin command.
\<close>

definition RunPlugin ::
  "(string list \<Rightarrow> error option) \<Rightarrow> (string \<Rightarrow> string list \<Rightarrow> string list \<Rightarrow> error option) \<Rightarrow>
   Plugins \<Rightarrow> string \<Rightarrow> string list \<Rightarrow> error option" where
  "RunPlugin flagsParse osRun p subcommand args =
     (let cmdName = Prefix p @ subcommand;
          plugin = \<lparr>plugin_name = cmdName, plugin_args = [], plugin_env = Env p\<rparr>;
          ignoredArgs = extractIgnoredArgs p args
      in case flagsParse ignoredArgs of
           Some err \<Rightarrow> Some err
         | None \<Rightarrow>
             (case PluginCommand_Init plugin args of
                (plugin', Some err) \<Rightarrow> Some err
              | (plugin', None) \<Rightarrow>
                  (case PluginCommand_Run osRun plugin' of
                     Some (ExecError e) \<Rightarrow> Some (UnrecognizedCommand subcommand)
                   | err \<Rightarrow> err)))"

text \<open>
  The messages of the two unrecognized-command errors. \<open>Sprintf\<close> renders a format
  whose only verb is \<^verbatim>\<open>%s\<close>, which is all these two formats use.
\<close>

fun Sprintf :: "string \<Rightarrow> string list \<Rightarrow> string" where
  "Sprintf [] args = []"
| "Sprintf (c # fmt) args =
     (case (c = CHR ''%'', fmt, args) of
        (True, d # fmt', a # args') \<Rightarrow>
          if d = CHR ''s'' then a @ Sprintf fmt' args' else c # Sprintf fmt args
      | _ \<Rightarrow> c # Sprintf fmt args)"

definition UnrecognizedCommand_Error :: "string \<Rightarrow> string" where
  "UnrecognizedCommand_Error name = Sprintf ''unrecognized command: %s'' [name]"

subsection \<open>Discovery and descriptions\<close>

text \<open>
  A directory entry is its name with its mode bits. \<open>readDir\<close> is the file system
  (\<open>None\<close> when the directory cannot be read), \<open>envPath\<close> the directories of the
  \<^verbatim>\<open>PATH\<close> variable; \<open>path\<close> is \<open>None\<close> for a nil slice.
\<close>

type_synonym FileInfo = "string \<times> 32 word"

definition FindAll ::
  "Plugins \<Rightarrow> (string \<Rightarrow> FileInfo list option) \<Rightarrow> string list \<Rightarrow> string list option \<Rightarrow> string list" where
  "FindAll p readDir envPath path =
     sort (concat (map
       (\<lambda>name. case readDir name of
            None \<Rightarrow> []
          | Some entries \<Rightarrow>
              map fst (filter (\<lambda>entry. prefix (Prefix p) (fst entry) \<and> (snd entry AND 0x49) \<noteq> 0)
                 entries))
       (case path of None \<Rightarrow> envPath | Some dirs \<Rightarrow> dirs)))"

record pluginDescription =
  pd_name :: string
  pd_description :: string

text \<open>
  The body of one probe: \<open>combinedOutput\<close> is what running the plugin with
  \<^verbatim>\<open>--description\<close> gives, its output and its error. The description is the output up
  to the first line feed, or the fixed text; the error also goes to the log, which the
  result does not depend on.
\<close>

definition probe :: "(string \<Rightarrow> string \<times> error option) \<Rightarrow> string \<Rightarrow> pluginDescription" where
  "probe combinedOutput plugin =
     (case combinedOutput plugin of
        (output, None) \<Rightarrow>
          \<lparr>pd_name = plugin, pd_description = takeWhile (\<lambda>c. c \<noteq> CHR 0x0A) output\<rparr>
      | (output, Some err) \<Rightarrow>
          \<lparr>pd_name = plugin,
           pd_description =
             ''error occurred running '' @ [CHR 0x27] @ plugin @ '' --description'' @ [CHR 0x27]\<rparr>)"

text \<open>
  The gathering loop, over the results in the order the channel delivers them. Slicing
  a name shorter than the prefix panics.
\<close>

fun gather ::
  "string \<Rightarrow> pluginDescription list \<Rightarrow> (string \<rightharpoonup> string) \<Rightarrow> fault + (string \<rightharpoonup> string)" where
  "gather pre [] results = Inr results"
| "gather pre (result # received) results =
     (if length pre \<le> length (pd_name result)
      then gather pre received
             (results(drop (length pre) (pd_name result) \<mapsto> pd_description result))
      else Inl SliceOutOfRange)"

text \<open>
  \<^verbatim>\<open>Plugins.Descriptions\<close>: one probe per discovered plugin puts its result into the
  channel; \<open>received\<close> is the sequence the gathering loop takes out of it, some
  arrangement of the results sent.
\<close>

definition sent :: "(string \<Rightarrow> string \<times> error option) \<Rightarrow> string list \<Rightarrow> pluginDescription list" where
  "sent combinedOutput plugins = map (probe combinedOutput) plugins"

definition Descriptions ::
  "Plugins \<Rightarrow> (string \<Rightarrow> FileInfo list option) \<Rightarrow> string list \<Rightarrow> pluginDescription list \<Rightarrow>
   fault + (string \<rightharpoonup> string)" where
  "Descriptions p readDir envPath received =
     (let plugins = FindAll p readDir envPath None
      in if plugins = [] then Inr Map.empty
         else gather (Prefix p) received Map.empty)"

section \<open>Sequences of registrations\<close>

datatype registration =
    Registration_Add Action
  | Registration_AddAlias string string
  | Registration_AddWithAliases Action

fun register :: "heap \<Rightarrow> Registry \<Rightarrow> registration \<Rightarrow> Registry \<times> error option" where
  "register h reg (Registration_Add action) = Add h reg action"
| "register h reg (Registration_AddAlias name alias) = AddAlias h reg name alias"
| "register h reg (Registration_AddWithAliases action) = AddWithAliases h reg action"

text \<open>The names a registration inserts, in the order it inserts them.\<close>

fun registered_names :: "registration \<Rightarrow> string list" where
  "registered_names (Registration_Add action) = [Name action]"
| "registered_names (Registration_AddAlias name alias) = [alias]"
| "registered_names (Registration_AddWithAliases action) = Name action # Aliases action"

text \<open>The alias names a registration asks for.\<close>

fun alias_names :: "registration \<Rightarrow> string list" where
  "alias_names (Registration_Add action) = []"
| "alias_names (Registration_AddAlias name alias) = [alias]"
| "alias_names (Registration_AddWithAliases action) = Aliases action"

text \<open>
  Running the registrations in sequence from a registry; \<open>None\<close> as soon as one of
  them returns an error.
\<close>

fun register_all :: "heap \<Rightarrow> Registry \<Rightarrow> registration list \<Rightarrow> Registry option" where
  "register_all h reg [] = Some reg"
| "register_all h reg (r # rs) =
     (case register h reg r of
        (reg', Some err) \<Rightarrow> None
      | (reg', None) \<Rightarrow> register_all h reg' rs)"

text \<open>
  The same sequence without stopping: a registration that returns an error leaves the
  registry as the failed call left it, and the next one goes on from there.
\<close>

fun register_each :: "heap \<Rightarrow> Registry \<Rightarrow> registration list \<Rightarrow> Registry" where
  "register_each h reg [] = reg"
| "register_each h reg (r # rs) = register_each h (fst (register h reg r)) rs"

text \<open>
  The invariants of a registry: an action is stored under its own, non-empty name; an
  alias targets a stored action; no name is both an action and an alias; the order
  list holds exactly the stored names, each once.
\<close>

definition Registry_keys :: "Registry \<Rightarrow> bool" where
  "Registry_keys reg \<longleftrightarrow>
     (\<forall>k a. actions reg k = Some a \<longrightarrow> Name a = k \<and> k \<noteq> []) \<and>
     (\<forall>k c. aliases reg k = Some c \<longrightarrow> actions reg c \<noteq> None)"

definition Registry_inv :: "Registry \<Rightarrow> bool" where
  "Registry_inv reg \<longleftrightarrow>
     Registry_keys reg \<and>
     dom (actions reg) \<inter> dom (aliases reg) = {} \<and>
     set (order reg) = dom (actions reg) \<union> dom (aliases reg) \<and>
     distinct (order reg)"

text \<open>A name is registered when \<^verbatim>\<open>LookUp\<close> finds it.\<close>

definition registered :: "heap \<Rightarrow> Registry \<Rightarrow> string \<Rightarrow> bool" where
  "registered h reg name = snd (LookUp h reg [name])"

text \<open>
  The name of a command to register is non-empty, the name and the aliases are
  pairwise distinct, and none of them is registered.
\<close>

definition names_free :: "heap \<Rightarrow> Registry \<Rightarrow> Info \<Rightarrow> bool" where
  "names_free h reg i \<longleftrightarrow>
     info_Name i \<noteq> [] \<and> distinct (info_Name i # info_Aliases i) \<and>
     (\<forall>n\<in>set (info_Name i # info_Aliases i). \<not> registered h reg n)"

section \<open>Slices in memory\<close>

text \<open>
  For the copy made by \<^verbatim>\<open>Names\<close>: backing arrays by address, the next free address,
  and a slice as its backing array with its length.
\<close>

record memory =
  arrays :: "nat \<Rightarrow> string list"
  allocated :: nat

record slice =
  sl_array :: nat
  sl_len :: nat

definition slice_contents :: "memory \<Rightarrow> slice \<Rightarrow> string list" where
  "slice_contents m s = take (sl_len s) (arrays m (sl_array s))"

definition make_slice :: "memory \<Rightarrow> nat \<Rightarrow> memory \<times> slice" where
  "make_slice m n =
     (m\<lparr>arrays := (arrays m)(allocated m := replicate n []), allocated := allocated m + 1\<rparr>,
      \<lparr>sl_array = allocated m, sl_len = n\<rparr>)"

definition copy_slice :: "memory \<Rightarrow> slice \<Rightarrow> slice \<Rightarrow> memory" where
  "copy_slice m dst src =
     (let n = min (sl_len dst) (sl_len src)
      in m\<lparr>arrays := (arrays m)(sl_array dst :=
             take n (arrays m (sl_array src)) @ drop n (arrays m (sl_array dst)))\<rparr>)"

definition Names_mem :: "memory \<Rightarrow> slice \<Rightarrow> memory \<times> slice" where
  "Names_mem m order_slice =
     (case make_slice m (sl_len order_slice) of
        (m', copied) \<Rightarrow> (copy_slice m' copied order_slice, copied))"

definition slice_store :: "memory \<Rightarrow> slice \<Rightarrow> nat \<Rightarrow> string \<Rightarrow> fault + memory" where
  "slice_store m s i v =
     (if i < sl_len s
      then Inr (m\<lparr>arrays := (arrays m)(sl_array s := (arrays m (sl_array s))[i := v])\<rparr>)
      else Inl SliceOutOfRange)"


section \<open>A concrete configuration\<close>

text \<open>
  A super-command \<open>d\<close> at address 1 and a super-command \<open>s\<close> at address 2, with the
  registries that \<^verbatim>\<open>SuperCommand.init\<close> and the registrations build: each starts with
  the default \<open>help\<close> action; \<open>s\<close> registers the leaf \<open>l\<close>, \<open>d\<close> registers \<open>s\<close>
  and the leaf \<open>leafname\<close>.
\<close>

definition zeroSuperCommand :: SuperCommand where
  "zeroSuperCommand = \<lparr>sc_Name = [], sc_Purpose = [], sc_Aliases = [], sc_version = [],
     subcmds = None, sc_action = zeroAction, showDescription = False, showHelp = False,
     missingCallback = None\<rparr>"

definition example_leaf :: "string \<Rightarrow> nat \<Rightarrow> Action" where
  "example_leaf n p = \<lparr>Name = n, AliasedName = [], Command = OtherCommandPtr p, Aliases = [],
     Replacement = []\<rparr>"

definition example_init_registry :: "nat \<Rightarrow> Registry" where
  "example_init_registry p =
     (case NewRegistryWithDefault (\<lambda>a. zeroSuperCommand) (example_leaf ''help'' p) of
        Inr reg \<Rightarrow> reg
      | Inl err \<Rightarrow> emptyRegistry)"

definition example_S_registry :: Registry where
  "example_S_registry =
     fst (Add (\<lambda>a. zeroSuperCommand) (example_init_registry 10) (example_leaf ''l'' 11))"

definition example_S_action :: Action where
  "example_S_action = \<lparr>Name = ''s'', AliasedName = [], Command = SuperCommandPtr 2, Aliases = [],
     Replacement = []\<rparr>"

definition example_D_registry :: Registry where
  "example_D_registry =
     fst (Add (\<lambda>a. zeroSuperCommand)
       (fst (Add (\<lambda>a. zeroSuperCommand) (example_init_registry 20) example_S_action))
       (example_leaf ''leafname'' 21))"

definition example_heap :: heap where
  "example_heap = (\<lambda>a. zeroSuperCommand)
     (1 := zeroSuperCommand\<lparr>sc_Name := ''d'', subcmds := Some example_D_registry\<rparr>,
      2 := zeroSuperCommand\<lparr>sc_Name := ''s'', subcmds := Some example_S_registry\<rparr>)"

text \<open>The same \<open>d\<close> with a missing-command callback that reports every name as unknown.\<close>

definition example_callback :: MissingCallback where
  "example_callback subcommand args = Some (UnrecognizedCommand subcommand)"

definition example_D_with_callback :: SuperCommand where
  "example_D_with_callback = zeroSuperCommand\<lparr>sc_Name := ''d'',
     subcmds := Some example_D_registry, missingCallback := Some example_callback\<rparr>"

text \<open>A deprecated command \<open>old\<close> with the alias \<open>o\<close>, and the registry holding it.\<close>

definition example_deprecated :: Action where
  "example_deprecated = \<lparr>Name = ''old'', AliasedName = [], Command = OtherCommandPtr 30,
     Aliases = [''o''], Replacement = ''new''\<rparr>"

definition example_alias_registry :: Registry where
  "example_alias_registry =
     fst (AddWithAliases (\<lambda>a. zeroSuperCommand) (example_init_registry 20) example_deprecated)"

text \<open>An action whose third alias is its own name and whose first two are empty.\<close>

definition example_colliding :: Action where
  "example_colliding = \<lparr>Name = ''b'', AliasedName = [], Command = OtherCommandPtr 31,
     Aliases = [[], [], ''b''], Replacement = []\<rparr>"


text \<open>The plugin set of the package's own tests, and an operating system in which the
  plugin \<open>juju-foo\<close> exits with status 2 and no other executable exists.\<close>

definition example_plugins :: Plugins where
  "example_plugins = \<lparr>Prefix = ''juju-'', IgnoredFlags = [''-e''], Env = [],
     Title = ''Juju Plugins''\<rparr>"

definition example_osRun :: "string \<Rightarrow> string list \<Rightarrow> string list \<Rightarrow> error option" where
  "example_osRun name args env =
     (if name = ''juju-foo'' then Some (ExitError (Exited 2)) else Some (ExecError name))"

text \<open>
  A file system with the plugins of the package's tests: \<open>juju-foo\<close> (mode 0744),
  \<open>juju-bar\<close> (0654), \<open>juju-baz\<close> (0645) and \<open>juju-error\<close> (0755) are executable,
  \<open>juju-data\<close> (0644) is not, \<open>other\<close> lacks the prefix. The probe of \<open>juju-error\<close>
  exits with status 1; the others print their description on the first line.
\<close>

definition example_readDir :: "string \<Rightarrow> FileInfo list option" where
  "example_readDir dir =
     (if dir = ''/bin'' then Some [(''ls'', 0x1ED)]
      else if dir = ''/plugins'' then
        Some [(''juju-foo'', 0x1E4), (''juju-bar'', 0x1AC), (''juju-baz'', 0x1A5),
              (''juju-error'', 0x1ED), (''juju-data'', 0x1A4), (''other'', 0x1ED)]
      else None)"

definition example_envPath :: "string list" where
  "example_envPath = [''/bin'', ''/missing'', ''/plugins'']"

definition example_combinedOutput :: "string \<Rightarrow> string \<times> error option" where
  "example_combinedOutput plugin =
     (if plugin = ''juju-error''
      then (''error description'' @ [CHR 0x0A], Some (ExitError (Exited 1)))
      else (drop 5 plugin @ '' description'' @ [CHR 0x0A] @ ''more'', None))"

text \<open>Three registrations that succeed, and a memory holding the resulting order list
  in the backing array at address 0.\<close>

definition example_registrations :: "registration list" where
  "example_registrations =
     [Registration_AddWithAliases example_deprecated,
      Registration_Add (example_leaf ''l'' 11),
      Registration_AddAlias ''l'' ''ll'']"

definition example_registered :: Registry where
  "example_registered = \<lparr>order = [''old'', ''o'', ''l'', ''ll''],
     actions = [''old'' \<mapsto> example_deprecated, ''l'' \<mapsto> example_leaf ''l'' 11],
     aliases = [''o'' \<mapsto> ''old'', ''ll'' \<mapsto> ''l''], defaultName = []\<rparr>"

definition example_memory :: memory where
  "example_memory = \<lparr>arrays = (\<lambda>a. [])(0 := [''old'', ''o'', ''l'', ''ll'']), allocated = 1\<rparr>"

definition example_order_slice :: slice where
  "example_order_slice = \<lparr>sl_array = 0, sl_len = 4\<rparr>"

section \<open>The concrete configuration, evaluated\<close>

lemma example_init_registry_eq:
  "example_init_registry p = \<lparr>order = [''help''],
     actions = [''help'' \<mapsto> example_leaf ''help'' p], aliases = Map.empty,
     defaultName = ''help''\<rparr>"
  by (simp add: example_init_registry_def NewRegistryWithDefault_def NewRegistry_def
      AddWithAliases_def Add_def Validate_def LookUp_def lookUp_def zeroAction_def
      emptyRegistry_def example_leaf_def)

lemma example_S_registry_eq:
  "example_S_registry = \<lparr>order = [''help'', ''l''],
     actions = [''help'' \<mapsto> example_leaf ''help'' 10, ''l'' \<mapsto> example_leaf ''l'' 11],
     aliases = Map.empty, defaultName = ''help''\<rparr>"
  by (simp add: example_S_registry_def example_init_registry_eq Add_def Validate_def LookUp_def
      lookUp_def zeroAction_def example_leaf_def)

lemma example_D_registry_eq:
  "example_D_registry = \<lparr>order = [''help'', ''s'', ''leafname''],
     actions = [''help'' \<mapsto> example_leaf ''help'' 20, ''s'' \<mapsto> example_S_action,
       ''leafname'' \<mapsto> example_leaf ''leafname'' 21],
     aliases = Map.empty, defaultName = ''help''\<rparr>"
  by (simp add: example_D_registry_def example_init_registry_eq Add_def Validate_def LookUp_def
      lookUp_def zeroAction_def example_leaf_def example_S_action_def)

lemma example_alias_registry_eq:
  "example_alias_registry = \<lparr>order = [''help'', ''old'', ''o''],
     actions = [''help'' \<mapsto> example_leaf ''help'' 20, ''old'' \<mapsto> example_deprecated],
     aliases = [''o'' \<mapsto> ''old''], defaultName = ''help''\<rparr>"
  by (simp add: example_alias_registry_def example_init_registry_eq AddWithAliases_def Add_def
      AddAlias_def Validate_def LookUp_def lookUp_def zeroAction_def example_leaf_def
      example_deprecated_def)

section \<open>Nested resolution\<close>

text \<open>
  Claim C1. With \<open>d\<close> holding the sub-dispatcher \<open>s\<close>, which holds the leaf \<open>l\<close>:
  the path \<open>s l\<close> resolves to the action of \<open>l\<close>, found. The claim says that the path
  \<open>s x\<close>, with \<open>x\<close> not in the registry of \<open>s\<close>, and the path \<open>leafname anything\<close>,
  with \<open>leafname\<close> not wrapping a dispatcher, are not found. The code returns the last
  action it resolved, the action of \<open>s\<close> and the action of \<open>leafname\<close>, with found
  true in both cases.
\<close>

theorem LookUp_partial_path_reported_found:
  "LookUp example_heap example_D_registry [''s'', ''l''] = (example_leaf ''l'' 11, True) \<and>
   lookUp example_S_registry ''x'' = (zeroAction, False) \<and>
   LookUp example_heap example_D_registry [''s'', ''x''] = (example_S_action, True) \<and>
   Command (example_leaf ''leafname'' 21) = OtherCommandPtr 21 \<and>
   LookUp example_heap example_D_registry [''leafname'', ''anything''] =
     (example_leaf ''leafname'' 21, True)"
  by (simp add: example_D_registry_eq example_S_registry_eq example_heap_def LookUp_def lookUp_def
      example_S_action_def example_leaf_def zeroAction_def)

section \<open>The missing-command path of Init\<close>

text \<open>
  Claim C2. The claim says that \<^verbatim>\<open>Init\<close> returns nil when the first argument is not
  found and a missing-command callback is configured. In the code, building the
  deferred action reads the name through the nil \<^verbatim>\<open>*Info\<close> that
  \<^verbatim>\<open>missingCommand.Info\<close> returns: for every super-command with a callback, every
  store and every argument vector whose first element is not found, \<^verbatim>\<open>Init\<close> panics
  with a nil dereference.
\<close>

theorem Init_missing_callback_panics:
  "\<not> showDescription c \<Longrightarrow> missingCallback c = Some callback \<Longrightarrow>
   LookUp_ptr h (subcmds c) [name] = Inr (a, False) \<Longrightarrow>
   Init h cmdInit parseFlags c (name # rest) = Inl NilDereference"
  by (simp add: Init_def newActionFromCommand_def missingCommand_Info_def)

theorem Init_missing_callback_panics_witness:
  "\<not> showDescription example_D_with_callback \<and>
   missingCallback example_D_with_callback = Some example_callback \<and>
   LookUp_ptr example_heap (subcmds example_D_with_callback) [''foo''] = Inr (zeroAction, False) \<and>
   Init example_heap (\<lambda>cmd args. None) (\<lambda>cmd help args. (Inr args, help))
     example_D_with_callback [''foo'', ''bar''] = Inl NilDereference"
proof -
  have 1: "\<not> showDescription example_D_with_callback"
    and 2: "missingCallback example_D_with_callback = Some example_callback"
    by (simp_all add: example_D_with_callback_def zeroSuperCommand_def)
  have 3: "LookUp_ptr example_heap (subcmds example_D_with_callback) [''foo''] =
      Inr (zeroAction, False)"
    by (simp add: example_D_with_callback_def LookUp_ptr_def LookUp_def lookUp_def
        example_D_registry_eq zeroAction_def)
  from 1 2 3 Init_missing_callback_panics [OF 1 2 3] show ?thesis by simp
qed

section \<open>Alias views\<close>

text \<open>
  Claim C4, as stated, fails: the alias view does not keep the replacement name and
  the alias list of the canonical action. The deprecated command \<open>old\<close> (replacement
  \<open>new\<close>, alias \<open>o\<close>) looked up as \<open>o\<close> has neither.
\<close>

theorem alias_view_drops_Replacement_and_Aliases:
  "actions example_alias_registry ''old'' = Some example_deprecated \<and>
   aliases example_alias_registry ''o'' = Some ''old'' \<and>
   fst (lookUp example_alias_registry ''o'') \<noteq>
     example_deprecated\<lparr>Name := ''o'', AliasedName := ''old''\<rparr> \<and>
   Replacement (fst (lookUp example_alias_registry ''o'')) \<noteq> Replacement example_deprecated \<and>
   Aliases (fst (lookUp example_alias_registry ''o'')) \<noteq> Aliases example_deprecated"
  by (simp add: example_alias_registry_eq lookUp_def NewAlias_def example_deprecated_def)

text \<open>
  Claim C4, amended. Looking up an alias of a canonical action gives an action with the
  alias as its name, the name of the canonical action as its aliased name, the very
  command of the canonical action, and an empty alias list and an empty replacement
  name. In a registry whose actions are stored under their own names the aliased name
  is the canonical name the alias was registered for.
\<close>

theorem lookUp_alias_view:
  "actions reg alias = None \<Longrightarrow> aliases reg alias = Some name \<Longrightarrow> actions reg name = Some a \<Longrightarrow>
   lookUp reg alias = (\<lparr>Name = alias, AliasedName = Name a, Command = Command a, Aliases = [],
      Replacement = []\<rparr>, True) \<and> (Registry_keys reg \<longrightarrow> Name a = name)"
  by (auto simp add: lookUp_def NewAlias_def Registry_keys_def)

theorem lookUp_alias_view_witness:
  "actions example_alias_registry ''o'' = None \<and>
   aliases example_alias_registry ''o'' = Some ''old'' \<and>
   actions example_alias_registry ''old'' = Some example_deprecated \<and>
   lookUp example_alias_registry ''o'' =
     (\<lparr>Name = ''o'', AliasedName = ''old'', Command = OtherCommandPtr 30, Aliases = [],
       Replacement = []\<rparr>, True)"
proof -
  have 1: "actions example_alias_registry ''o'' = None"
    and 2: "aliases example_alias_registry ''o'' = Some ''old''"
    and 3: "actions example_alias_registry ''old'' = Some example_deprecated"
    by (simp_all add: example_alias_registry_eq)
  from 1 2 3 lookUp_alias_view [OF 1 2 3] show ?thesis
    by (simp add: example_deprecated_def)
qed

section \<open>Error classification in the run step\<close>

text \<open>
  Claim C5. When the selected action returns the silent sentinel or a pass-through
  error, \<^verbatim>\<open>run\<close> returns that same error; any other error is logged once by this
  layer and replaced by the silent sentinel; whatever \<^verbatim>\<open>run\<close> returns is nil, the
  silent sentinel, or the pass-through error of the action unchanged.
\<close>

theorem run_classifies_errors:
  "Action_Run cmdRun (sc_action c) = Inr err \<Longrightarrow>
     (\<forall>e. err = Some e \<and> (e = ErrSilent \<or> IsRcPassthroughError e) \<longrightarrow>
        (\<exists>log'. run cmdRun c log = Inr (err, log'))) \<and>
     (\<forall>e. err = Some e \<and> e \<noteq> ErrSilent \<and> \<not> IsRcPassthroughError e \<longrightarrow>
        run cmdRun c log = Inr (Some ErrSilent, log @ [LogErrorf e])) \<and>
     (\<forall>r log'. run cmdRun c log = Inr (r, log') \<longrightarrow>
        r = None \<or> r = Some ErrSilent \<or> (\<exists>e. r = Some e \<and> IsRcPassthroughError e \<and> err = r))"
  by (auto simp: run_def split: option.splits)

theorem run_classifies_errors_witness:
  "Action_Run (\<lambda>cmd. Some (OtherError ''boom''))
     (sc_action (zeroSuperCommand\<lparr>sc_action := example_leaf ''l'' 11\<rparr>)) =
     Inr (Some (OtherError ''boom'')) \<and>
   OtherError ''boom'' \<noteq> ErrSilent \<and> \<not> IsRcPassthroughError (OtherError ''boom'') \<and>
   run (\<lambda>cmd. Some (OtherError ''boom'')) (zeroSuperCommand\<lparr>sc_action := example_leaf ''l'' 11\<rparr>)
     [] = Inr (Some ErrSilent, [LogErrorf (OtherError ''boom'')])"
proof -
  have 1: "Action_Run (\<lambda>cmd. Some (OtherError ''boom''))
     (sc_action (zeroSuperCommand\<lparr>sc_action := example_leaf ''l'' 11\<rparr>)) =
     Inr (Some (OtherError ''boom''))"
    by (simp add: Action_Run_def example_leaf_def)
  have 2: "\<not> IsRcPassthroughError (OtherError ''boom'')"
    by (simp add: IsRcPassthroughError_def)
  from 1 2 run_classifies_errors [OF 1, of "[]"] show ?thesis by simp
qed

section \<open>Plugin exit status and missing executables\<close>

lemma Sprintf_unrecognized:
  "Sprintf ''unrecognized command: %s %s'' [super, name] =
     ''unrecognized command: '' @ super @ '' '' @ name"
  by simp

text \<open>
  Claim C6. A plugin process that ends with exit status \<open>n\<close> makes
  \<^verbatim>\<open>PluginCommand.Run\<close>, and \<^verbatim>\<open>RunPlugin\<close> through it, return the pass-through error
  carrying \<open>n\<close>, whatever the arguments. When the executable is not found,
  \<^verbatim>\<open>RunPlugin\<close> returns the unrecognized-command error for the subcommand; the missing
  command that wraps \<^verbatim>\<open>RunPlugin\<close> qualifies it with the name of the super-command, and
  its message is then the message of the error that \<^verbatim>\<open>Init\<close> returns for a name not
  found when no callback is configured.
\<close>

theorem plugin_exit_status_passthrough_and_not_found:
  "(osRun (plugin_name c) (plugin_args c) (plugin_env c) = Some (ExitError (Exited n)) \<longrightarrow>
      PluginCommand_Run osRun c = Some (RcPassthroughError n)) \<and>
   (flagsParse (extractIgnoredArgs p args1) = None \<and>
    osRun (Prefix p @ sub1) args1 (Env p) = Some (ExitError (Exited n)) \<longrightarrow>
      RunPlugin flagsParse osRun p sub1 args1 = Some (RcPassthroughError n)) \<and>
   (flagsParse (extractIgnoredArgs p args2) = None \<and>
    osRun (Prefix p @ sub2) args2 (Env p) = Some (ExecError e) \<longrightarrow>
      RunPlugin flagsParse osRun p sub2 args2 = Some (UnrecognizedCommand sub2) \<and>
      (\<exists>full. missingCommand_Run \<lparr>mc_Callback = RunPlugin flagsParse osRun p,
           mc_SuperName = super, mc_Name = sub2, mc_Args = args2\<rparr> =
             Some (UnrecognizedCommand full) \<and>
         UnrecognizedCommand_Error full = Sprintf ''unrecognized command: %s %s'' [super, sub2]))"
  by (auto simp: PluginCommand_Run_def RunPlugin_def PluginCommand_Init_def
      NewRcPassthroughError_def missingCommand_Run_def UnrecognizedCommand_Error_def Let_def)

theorem plugin_exit_status_passthrough_and_not_found_witness:
  "example_osRun ''juju-foo'' [''some params''] [] = Some (ExitError (Exited 2)) \<and>
   extractIgnoredArgs example_plugins [''some params''] = [] \<and>
   example_osRun (Prefix example_plugins @ ''foo'') [''some params''] (Env example_plugins) =
     Some (ExitError (Exited 2)) \<and>
   example_osRun (Prefix example_plugins @ ''bar'') [''-e'', ''x''] (Env example_plugins) =
     Some (ExecError ''juju-bar'') \<and>
   extractIgnoredArgs example_plugins [''-e'', ''x''] = [''-e'', ''x''] \<and>
   PluginCommand_Run example_osRun
     \<lparr>plugin_name = ''juju-foo'', plugin_args = [''some params''], plugin_env = []\<rparr> =
     Some (RcPassthroughError 2) \<and>
   RunPlugin (\<lambda>args. None) example_osRun example_plugins ''foo'' [''some params''] =
     Some (RcPassthroughError 2) \<and>
   RunPlugin (\<lambda>args. None) example_osRun example_plugins ''bar'' [''-e'', ''x''] =
     Some (UnrecognizedCommand ''bar'')"
proof -
  have 1: "example_osRun ''juju-foo'' [''some params''] [] = Some (ExitError (Exited 2))"
    and 2: "example_osRun (Prefix example_plugins @ ''foo'') [''some params'']
        (Env example_plugins) = Some (ExitError (Exited 2))"
    and 3: "example_osRun (Prefix example_plugins @ ''bar'') [''-e'', ''x'']
        (Env example_plugins) = Some (ExecError ''juju-bar'')"
    by (simp_all add: example_osRun_def example_plugins_def)
  have 4: "extractIgnoredArgs example_plugins [''some params''] = []"
    and 5: "extractIgnoredArgs example_plugins [''-e'', ''x''] = [''-e'', ''x'']"
    by (simp_all add: extractIgnoredArgs_def example_plugins_def extractIgnoredArgs_from.simps)
  from 1 2 3 4 5
    plugin_exit_status_passthrough_and_not_found
      [of example_osRun
          "\<lparr>plugin_name = ''juju-foo'', plugin_args = [''some params''], plugin_env = []\<rparr>"
          2 "\<lambda>args. None" example_plugins "[''some params'']" "''foo''"
          "[''-e'', ''x'']" "''bar''" "''juju-bar''" "''d''"]
  show ?thesis by simp
qed

section \<open>Empty alias names\<close>

text \<open>
  Claim C3. The claim says that a failed \<^verbatim>\<open>AddWithAliases\<close> leaves the registry as it
  was before the call. \<^verbatim>\<open>LookUp\<close> reports an action as found by its non-empty name,
  so an alias with the empty name is never seen as registered: it is added again,
  and the roll-back removes it once. On the registry holding only \<open>help\<close>, the action
  \<open>b\<close> with the aliases \<open>\<close>, \<open>\<close> and \<open>b\<close> fails at its third alias and leaves the
  empty name in the order list.
\<close>

theorem AddWithAliases_rollback_leaves_empty_alias:
  "Names (example_init_registry 20) = [''help''] \<and>
   AddWithAliases example_heap (example_init_registry 20) example_colliding =
     ((example_init_registry 20)\<lparr>order := [''help'', []]\<rparr>,
      Some (Errorf ''action %q already added'' [''b'']))"
  by (simp add: example_init_registry_eq example_colliding_def AddWithAliases_def Add_def
      AddAlias_def Validate_def LookUp_def lookUp_def zeroAction_def example_leaf_def
      remove_def removeString_def removeString_from.simps NewAlias_def Names_def)

text \<open>
  Claim C7. The claim says that every name is in the order list exactly once after any
  sequence of registrations. Adding the empty alias twice succeeds both times and
  puts the empty name into the order list twice.
\<close>

theorem empty_alias_registered_twice:
  "register_all example_heap emptyRegistry
     [Registration_Add (example_leaf ''a'' 1), Registration_AddAlias ''a'' [],
      Registration_AddAlias ''a'' []] =
     Some \<lparr>order = [''a'', [], []], actions = [''a'' \<mapsto> example_leaf ''a'' 1],
       aliases = [[] \<mapsto> ''a''], defaultName = []\<rparr> \<and>
   \<not> distinct [''a'', [], []]"
  by (simp add: emptyRegistry_def Add_def AddAlias_def Validate_def LookUp_def lookUp_def
      zeroAction_def example_leaf_def NewAlias_def)


section \<open>Single-name lookups and successful registrations\<close>

lemma LookUp_single:
  "LookUp h reg [n] =
     (case lookUp reg n of (a, True) \<Rightarrow> (a, Name a \<noteq> []) | (a, False) \<Rightarrow> (zeroAction, False))"
proof (cases "lookUp reg n")
  case (Pair a ok)
  show ?thesis
  proof (cases ok)
    case False
    with Pair show ?thesis by (simp add: LookUp_def zeroAction_def)
  next
    case True
    with Pair show ?thesis by (cases "Command a") (simp_all add: LookUp_def)
  qed
qed

lemma Registry_keys_action:
  "Registry_keys reg \<Longrightarrow> actions reg k = Some a \<Longrightarrow> Name a = k \<and> k \<noteq> []"
  unfolding Registry_keys_def by blast

lemma Registry_keys_alias:
  "Registry_keys reg \<Longrightarrow> aliases reg k = Some c \<Longrightarrow> \<exists>a. actions reg c = Some a"
  unfolding Registry_keys_def by blast

lemma registered_iff:
  assumes "Registry_keys reg"
  shows "registered h reg n \<longleftrightarrow> actions reg n \<noteq> None \<or> (n \<noteq> [] \<and> aliases reg n \<noteq> None)"
proof (cases "actions reg n")
  case (Some a)
  with assms have "Name a \<noteq> []" by (auto dest: Registry_keys_action)
  with Some show ?thesis by (simp add: registered_def LookUp_single lookUp_def)
next
  case None
  show ?thesis
  proof (cases "aliases reg n")
    case N2: None
    with None show ?thesis by (simp add: registered_def LookUp_single lookUp_def)
  next
    case (Some c)
    with assms obtain a where "actions reg c = Some a" by (blast dest: Registry_keys_alias)
    with None Some show ?thesis
      by (simp add: registered_def LookUp_single lookUp_def NewAlias_def)
  qed
qed

lemma Add_success:
  "Add h reg a = (reg', None) \<longleftrightarrow>
     Validate a = None \<and> \<not> registered h reg (Name a) \<and>
     reg' = reg\<lparr>actions := (actions reg)(Name a \<mapsto> a), order := order reg @ [Name a]\<rparr>"
  by (cases "Validate a") (auto simp: Add_def registered_def)

lemma AddAlias_success:
  "AddAlias h reg n al = (reg', None) \<longleftrightarrow>
     actions reg n \<noteq> None \<and> \<not> registered h reg al \<and>
     reg' = reg\<lparr>aliases := (aliases reg)(al \<mapsto> n), order := order reg @ [al]\<rparr>"
  by (auto simp: AddAlias_def registered_def)

lemma Add_failure: "Add h reg a = (reg', Some err) \<Longrightarrow> reg' = reg"
  by (cases "Validate a") (auto simp: Add_def split: if_splits)

lemma AddAlias_failure: "AddAlias h reg n al = (reg', Some err) \<Longrightarrow> reg' = reg"
  by (auto simp: AddAlias_def split: if_splits)

lemma AddWithAliases_loop_order:
  "AddWithAliases_loop h reg a als added = (reg', None) \<Longrightarrow> order reg' = order reg @ als"
proof (induction als arbitrary: reg added)
  case Nil
  then show ?case by simp
next
  case (Cons al als)
  obtain reg1 e where r: "AddAlias h reg (Name a) al = (reg1, e)"
    by (cases "AddAlias h reg (Name a) al")
  with Cons.prems have e: "e = None" by (cases e) auto
  with r Cons.prems have 2: "AddWithAliases_loop h reg1 a als (added @ [al]) = (reg', None)"
    by simp
  from r e have "order reg1 = order reg @ [al]" by (simp add: AddAlias_success)
  with Cons.IH[OF 2] show ?case by simp
qed

lemma AddWithAliases_order:
  assumes "AddWithAliases h reg a = (reg', None)"
  shows "order reg' = order reg @ Name a # Aliases a"
proof -
  obtain reg1 e where r: "Add h reg a = (reg1, e)" by (cases "Add h reg a")
  with assms have e: "e = None" by (cases e) (auto simp: AddWithAliases_def)
  with r assms have 2: "AddWithAliases_loop h reg1 a (Aliases a) [] = (reg', None)"
    by (simp add: AddWithAliases_def)
  from r e have "order reg1 = order reg @ [Name a]" by (simp add: Add_success)
  with AddWithAliases_loop_order[OF 2] show ?thesis by simp
qed

lemma register_order:
  "register h reg r = (reg', None) \<Longrightarrow> order reg' = order reg @ registered_names r"
  by (cases r) (simp_all add: Add_success AddAlias_success AddWithAliases_order)

lemma register_all_order:
  "register_all h reg rs = Some reg' \<Longrightarrow>
   order reg' = order reg @ concat (map registered_names rs)"
proof (induction rs arbitrary: reg)
  case Nil
  then show ?case by simp
next
  case (Cons r rs)
  obtain reg1 e where r: "register h reg r = (reg1, e)" by (cases "register h reg r")
  with Cons.prems have e: "e = None" by (cases e) auto
  with r Cons.prems have 2: "register_all h reg1 rs = Some reg'" by simp
  from register_order r e have "order reg1 = order reg @ registered_names r" by blast
  with Cons.IH[OF 2] show ?case by simp
qed

section \<open>Names\<close>

lemma Names_mem_copy:
  assumes "sl_array os < allocated m" "Names_mem m os = (m', copied)"
  shows "slice_contents m' copied = slice_contents m os"
    and "slice_contents m' os = slice_contents m os"
    and "sl_array copied \<noteq> sl_array os"
  using assms
  by (auto simp: Names_mem_def make_slice_def copy_slice_def slice_contents_def)

lemma slice_store_other:
  "slice_store m s i v = Inr m' \<Longrightarrow> sl_array s \<noteq> sl_array t \<Longrightarrow>
   slice_contents m' t = slice_contents m t"
  by (auto simp: slice_store_def slice_contents_def split: if_splits)

lemma example_registrations_run:
  "register_all h emptyRegistry example_registrations = Some example_registered"
  by (simp add: example_registrations_def example_registered_def emptyRegistry_def
      AddWithAliases_def Add_def AddAlias_def Validate_def LookUp_def lookUp_def zeroAction_def
      example_leaf_def example_deprecated_def NewAlias_def)

text \<open>
  Claim C8. When every registration of a sequence, run from a new registry, succeeds,
  \<^verbatim>\<open>Names\<close> is the list of the registered names in the order of insertion, each alias
  where it was registered. With the order list held in a slice of allocated memory,
  the slice that \<^verbatim>\<open>Names\<close> returns has these contents, and no store into it changes
  the contents of the registry's own order list.
\<close>

theorem Names_insertion_order_and_copy:
  "register_all h emptyRegistry rs = Some reg \<Longrightarrow> slice_contents m os = order reg \<Longrightarrow>
   sl_array os < allocated m \<Longrightarrow> Names_mem m os = (m', copied) \<Longrightarrow>
   Names reg = concat (map registered_names rs) \<and>
   slice_contents m' copied = Names reg \<and>
   (\<forall>i v m''. slice_store m' copied i v = Inr m'' \<longrightarrow> slice_contents m'' os = order reg)"
proof (intro conjI)
  assume run: "register_all h emptyRegistry rs = Some reg"
    and held: "slice_contents m os = order reg"
    and alloc: "sl_array os < allocated m"
    and names: "Names_mem m os = (m', copied)"
  from register_all_order[OF run] show "Names reg = concat (map registered_names rs)"
    by (simp add: Names_def emptyRegistry_def)
  from Names_mem_copy(1)[OF alloc names] held show "slice_contents m' copied = Names reg"
    by (simp add: Names_def)
  show "\<forall>i v m''. slice_store m' copied i v = Inr m'' \<longrightarrow> slice_contents m'' os = order reg"
    using slice_store_other Names_mem_copy(2,3)[OF alloc names] held by metis
qed

lemma example_Names_mem:
  "Names_mem example_memory example_order_slice =
     (\<lparr>arrays = (\<lambda>a. [])(0 := [''old'', ''o'', ''l'', ''ll''], 1 := [''old'', ''o'', ''l'', ''ll'']),
       allocated = 2\<rparr>,
      \<lparr>sl_array = 1, sl_len = 4\<rparr>)"
  by (simp add: Names_mem_def make_slice_def copy_slice_def example_memory_def
      example_order_slice_def)

theorem Names_insertion_order_and_copy_witness:
  "register_all example_heap emptyRegistry example_registrations = Some example_registered \<and>
   slice_contents example_memory example_order_slice = order example_registered \<and>
   sl_array example_order_slice < allocated example_memory \<and>
   Names example_registered = [''old'', ''o'', ''l'', ''ll''] \<and>
   slice_contents (fst (Names_mem example_memory example_order_slice))
     (snd (Names_mem example_memory example_order_slice)) = [''old'', ''o'', ''l'', ''ll''] \<and>
   slice_store (fst (Names_mem example_memory example_order_slice))
     (snd (Names_mem example_memory example_order_slice)) 0 ''changed'' =
     Inr \<lparr>arrays = (\<lambda>a. [])(0 := [''old'', ''o'', ''l'', ''ll''],
              1 := [''changed'', ''o'', ''l'', ''ll'']), allocated = 2\<rparr> \<and>
   slice_contents \<lparr>arrays = (\<lambda>a. [])(0 := [''old'', ''o'', ''l'', ''ll''],
              1 := [''changed'', ''o'', ''l'', ''ll'']), allocated = 2\<rparr> example_order_slice =
     [''old'', ''o'', ''l'', ''ll'']"
proof -
  have 1: "register_all example_heap emptyRegistry example_registrations =
      Some example_registered"
    by (rule example_registrations_run)
  have 2: "slice_contents example_memory example_order_slice = order example_registered"
    by (simp add: slice_contents_def example_memory_def example_order_slice_def
        example_registered_def)
  have 3: "sl_array example_order_slice < allocated example_memory"
    by (simp add: example_memory_def example_order_slice_def)
  have 4: "Names_mem example_memory example_order_slice =
      (fst (Names_mem example_memory example_order_slice),
       snd (Names_mem example_memory example_order_slice))"
    by simp
  have 5: "concat (map registered_names example_registrations) = [''old'', ''o'', ''l'', ''ll'']"
    and 6: "order example_registered = [''old'', ''o'', ''l'', ''ll'']"
    by (simp_all add: example_registrations_def example_deprecated_def example_leaf_def
        example_registered_def)
  have 7: "slice_store (fst (Names_mem example_memory example_order_slice))
     (snd (Names_mem example_memory example_order_slice)) 0 ''changed'' =
     Inr \<lparr>arrays = (\<lambda>a. [])(0 := [''old'', ''o'', ''l'', ''ll''],
              1 := [''changed'', ''o'', ''l'', ''ll'']), allocated = 2\<rparr>"
    by (simp add: example_Names_mem slice_store_def)
  from 1 2 3 5 6 7 Names_insertion_order_and_copy [OF 1 2 3 4] show ?thesis by simp
qed

section \<open>Gathering plugin descriptions\<close>

lemma FindAll_prefix:
  "pl \<in> set (FindAll p readDir envPath path) \<Longrightarrow> prefix (Prefix p) pl"
  by (auto simp: FindAll_def split: option.splits)

lemma pd_name_probe: "pd_name (probe co pl) = pl"
  by (cases "co pl") (auto simp: probe_def split: option.splits)

lemma gather_probes:
  assumes "\<forall>r\<in>set rs. \<exists>pl. prefix pre pl \<and> r = probe co pl"
  shows "gather pre rs m =
     Inr (\<lambda>n. if pre @ n \<in> pd_name ` set rs then Some (pd_description (probe co (pre @ n)))
               else m n)"
  using assms
proof (induction rs arbitrary: m)
  case Nil
  then show ?case by simp
next
  case (Cons r rs)
  from Cons.prems obtain pl where pl: "prefix pre pl" "r = probe co pl" by auto
  then obtain k where k: "pl = pre @ k" by (auto simp: prefix_def)
  from pl k have n: "pd_name r = pre @ k" by (simp add: pd_name_probe)
  from Cons.prems have "\<forall>r\<in>set rs. \<exists>pl. prefix pre pl \<and> r = probe co pl" by simp
  from Cons.IH[OF this] n have
    "gather pre (r # rs) m =
       Inr (\<lambda>n. if pre @ n \<in> pd_name ` set rs then Some (pd_description (probe co (pre @ n)))
                 else (m(k \<mapsto> pd_description r)) n)"
    by simp
  also have "(\<lambda>n. if pre @ n \<in> pd_name ` set rs then Some (pd_description (probe co (pre @ n)))
                 else (m(k \<mapsto> pd_description r)) n) =
      (\<lambda>n. if pre @ n \<in> pd_name ` set (r # rs) then Some (pd_description (probe co (pre @ n)))
                 else m n)"
    using n pl k by (auto simp: fun_eq_iff)
  finally show ?case .
qed

lemma Descriptions_map:
  assumes "mset received = mset (sent co (FindAll p readDir envPath None))"
  shows "Descriptions p readDir envPath received =
     Inr (\<lambda>n. if Prefix p @ n \<in> set (FindAll p readDir envPath None)
               then Some (pd_description (probe co (Prefix p @ n))) else None)"
proof -
  let ?plugins = "FindAll p readDir envPath None"
  from assms have s: "set received = probe co ` set ?plugins"
    by (metis mset_eq_setD set_map sent_def)
  then have "\<forall>r\<in>set received. \<exists>pl. prefix (Prefix p) pl \<and> r = probe co pl"
    by (auto dest: FindAll_prefix)
  from gather_probes[OF this] have g: "gather (Prefix p) received Map.empty =
     Inr (\<lambda>n. if Prefix p @ n \<in> pd_name ` set received
               then Some (pd_description (probe co (Prefix p @ n))) else None)" .
  from s have names: "pd_name ` set received = set ?plugins"
    by (auto simp: pd_name_probe image_image)
  show ?thesis
  proof (cases "?plugins = []")
    case True
    then show ?thesis by (simp add: Descriptions_def)
  next
    case False
    with g names show ?thesis by (simp add: Descriptions_def)
  qed
qed

lemma pd_description_probe:
  "pd_description (probe co pl) =
     (case co pl of
        (output, None) \<Rightarrow> takeWhile (\<lambda>c. c \<noteq> CHR 0x0A) output
      | (output, Some err) \<Rightarrow>
          ''error occurred running '' @ [CHR 0x27] @ pl @ '' --description'' @ [CHR 0x27])"
  by (cases "co pl") (auto simp: probe_def split: option.splits)

lemma example_FindAll:
  "FindAll example_plugins example_readDir example_envPath None =
     [''juju-bar'', ''juju-baz'', ''juju-error'', ''juju-foo'']"
  by (simp add: FindAll_def example_plugins_def example_readDir_def example_envPath_def
      less_char_def less_eq_char_def)


text \<open>
  Claim C9. The probe results reach the gathering loop in some order: \<open>received\<close>
  is any arrangement of the results sent for the plugins that \<^verbatim>\<open>FindAll\<close> discovered,
  the result of a plugin being a function of its name. Whatever the arrangement,
  \<^verbatim>\<open>Descriptions\<close> returns the same mapping: a key for each discovered name with the
  prefix stripped; the value is the output of the probe up to the first line feed when
  the probe succeeded, and the fixed text naming the plugin and the flag when it
  failed.
\<close>

theorem Descriptions_order_independent:
  "mset received = mset (sent co (FindAll p readDir envPath None)) \<Longrightarrow>
   mset received' = mset (sent co (FindAll p readDir envPath None)) \<Longrightarrow>
   Descriptions p readDir envPath received = Descriptions p readDir envPath received' \<and>
   Descriptions p readDir envPath received =
     Inr (\<lambda>n. if Prefix p @ n \<in> set (FindAll p readDir envPath None)
               then Some (case co (Prefix p @ n) of
                      (output, None) \<Rightarrow> takeWhile (\<lambda>c. c \<noteq> CHR 0x0A) output
                    | (output, Some err) \<Rightarrow>
                        ''error occurred running '' @ [CHR 0x27] @ (Prefix p @ n) @
                        '' --description'' @ [CHR 0x27])
               else None)"
  by (simp add: Descriptions_map pd_description_probe cong: if_cong)


theorem Descriptions_order_independent_witness:
  "mset [probe example_combinedOutput ''juju-foo'', probe example_combinedOutput ''juju-error'',
         probe example_combinedOutput ''juju-bar'', probe example_combinedOutput ''juju-baz''] =
     mset (sent example_combinedOutput (FindAll example_plugins example_readDir example_envPath None)) \<and>
   mset [probe example_combinedOutput ''juju-baz'', probe example_combinedOutput ''juju-bar'',
         probe example_combinedOutput ''juju-foo'', probe example_combinedOutput ''juju-error''] =
     mset (sent example_combinedOutput (FindAll example_plugins example_readDir example_envPath None)) \<and>
   Descriptions example_plugins example_readDir example_envPath
     [probe example_combinedOutput ''juju-foo'', probe example_combinedOutput ''juju-error'',
      probe example_combinedOutput ''juju-bar'', probe example_combinedOutput ''juju-baz''] =
   Descriptions example_plugins example_readDir example_envPath
     [probe example_combinedOutput ''juju-baz'', probe example_combinedOutput ''juju-bar'',
      probe example_combinedOutput ''juju-foo'', probe example_combinedOutput ''juju-error'']"
proof -
  have 1: "mset [probe example_combinedOutput ''juju-foo'', probe example_combinedOutput ''juju-error'',
         probe example_combinedOutput ''juju-bar'', probe example_combinedOutput ''juju-baz''] =
     mset (sent example_combinedOutput (FindAll example_plugins example_readDir example_envPath None))"
    by (simp add: example_FindAll sent_def)
  have 2: "mset [probe example_combinedOutput ''juju-baz'', probe example_combinedOutput ''juju-bar'',
         probe example_combinedOutput ''juju-foo'', probe example_combinedOutput ''juju-error''] =
     mset (sent example_combinedOutput (FindAll example_plugins example_readDir example_envPath None))"
    by (simp add: example_FindAll sent_def)
  from 1 2 Descriptions_order_independent [OF 1 2] show ?thesis by blast
qed


lemma example_Descriptions:
  "Descriptions example_plugins example_readDir example_envPath
     [probe example_combinedOutput ''juju-foo'', probe example_combinedOutput ''juju-error'',
      probe example_combinedOutput ''juju-bar'', probe example_combinedOutput ''juju-baz''] =
   Inr [''foo'' \<mapsto> ''foo description'', ''error'' \<mapsto> ''error occurred running '' @ [CHR 0x27] @ ''juju-error --description'' @ [CHR 0x27],
      ''bar'' \<mapsto> ''bar description'', ''baz'' \<mapsto> ''baz description'']"
  unfolding Descriptions_def example_FindAll
  by (simp add: probe_def example_combinedOutput_def example_plugins_def fun_eq_iff)

section \<open>Registering subcommands\<close>

lemma Registry_keys_AddAlias:
  assumes "Registry_keys reg" "actions reg n \<noteq> None"
  shows "Registry_keys (reg\<lparr>aliases := (aliases reg)(al \<mapsto> n), order := order reg @ [al]\<rparr>)"
  using assms unfolding Registry_keys_def by auto

lemma Registry_keys_Add:
  assumes "Registry_keys reg" "Name a \<noteq> []"
  shows "Registry_keys (reg\<lparr>actions := (actions reg)(Name a \<mapsto> a), order := order reg @ [Name a]\<rparr>)"
  using assms unfolding Registry_keys_def by auto

lemma AddAlias_result:
  "AddAlias h reg n al = (reg', e) \<Longrightarrow> (e = None) = (actions reg n \<noteq> None \<and> \<not> registered h reg al)"
  by (auto simp: AddAlias_def registered_def split: if_splits)

lemma AddWithAliases_loop_success_iff:
  assumes "Registry_keys reg" "actions reg (Name a) \<noteq> None" "[] \<notin> set als"
  shows "(\<exists>reg'. AddWithAliases_loop h reg a als added = (reg', None)) \<longleftrightarrow>
     distinct als \<and> (\<forall>al\<in>set als. \<not> registered h reg al)"
  using assms
proof (induction als arbitrary: reg added)
  case Nil
  then show ?case by simp
next
  case (Cons al als)
  obtain reg1 e where r: "AddAlias h reg (Name a) al = (reg1, e)"
    by (cases "AddAlias h reg (Name a) al")
  show ?case
  proof (cases e)
    case (Some err)
    with r AddAlias_result[OF r] Cons.prems have "registered h reg al" by simp
    with r Some show ?thesis by simp
  next
    case None
    with r have free: "\<not> registered h reg al"
      and reg1: "reg1 = reg\<lparr>aliases := (aliases reg)(al \<mapsto> Name a), order := order reg @ [al]\<rparr>"
      by (simp_all add: AddAlias_success)
    from Cons.prems have al: "al \<noteq> []" by auto
    from reg1 Cons.prems have k1: "Registry_keys reg1" by (simp add: Registry_keys_AddAlias)
    from reg1 Cons.prems have a1: "actions reg1 (Name a) \<noteq> None" by simp
    from Cons.prems have e1: "[] \<notin> set als" by simp
    from reg1 have m1: "actions reg1 = actions reg" "aliases reg1 = (aliases reg)(al \<mapsto> Name a)"
      by simp_all
    have step: "registered h reg1 x \<longleftrightarrow> registered h reg x \<or> x = al" for x
      unfolding registered_iff[OF k1] registered_iff[OF Cons.prems(1)] m1 using al by auto
    from r None have "(\<exists>reg'. AddWithAliases_loop h reg a (al # als) added = (reg', None)) \<longleftrightarrow>
        (\<exists>reg'. AddWithAliases_loop h reg1 a als (added @ [al]) = (reg', None))"
      by simp
    also have "\<dots> \<longleftrightarrow> distinct als \<and> (\<forall>x\<in>set als. \<not> registered h reg1 x)"
      by (rule Cons.IH[OF k1 a1 e1])
    also have "\<dots> \<longleftrightarrow> distinct (al # als) \<and> (\<forall>x\<in>set (al # als). \<not> registered h reg x)"
      using free by (auto simp: step)
    finally show ?thesis .
  qed
qed

lemma Validate_None: "Validate a = None \<longleftrightarrow> Name a \<noteq> [] \<and> Command a \<noteq> NilCommand"
  by (simp add: Validate_def)

lemma AddWithAliases_success_iff:
  assumes "Registry_keys reg" "[] \<notin> set (Aliases a)"
  shows "(\<exists>reg'. AddWithAliases h reg a = (reg', None)) \<longleftrightarrow>
     Name a \<noteq> [] \<and> Command a \<noteq> NilCommand \<and> distinct (Name a # Aliases a) \<and>
     (\<forall>n\<in>set (Name a # Aliases a). \<not> registered h reg n)"
proof -
  obtain reg1 e where r: "Add h reg a = (reg1, e)" by (cases "Add h reg a")
  show ?thesis
  proof (cases e)
    case (Some err)
    with r have "\<not> (Validate a = None \<and> \<not> registered h reg (Name a))"
      using Add_success[of h reg a] by auto
    with r Some show ?thesis by (auto simp: AddWithAliases_def Validate_None)
  next
    case None
    with r have v: "Validate a = None" and free: "\<not> registered h reg (Name a)"
      and reg1: "reg1 = reg\<lparr>actions := (actions reg)(Name a \<mapsto> a), order := order reg @ [Name a]\<rparr>"
      by (simp_all add: Add_success)
    from v have nm: "Name a \<noteq> []" by (simp add: Validate_None)
    from reg1 assms nm have k1: "Registry_keys reg1" by (simp add: Registry_keys_Add)
    from reg1 have a1: "actions reg1 (Name a) \<noteq> None" by simp
    from reg1 have m1: "actions reg1 = (actions reg)(Name a \<mapsto> a)" "aliases reg1 = aliases reg"
      by simp_all
    have step: "registered h reg1 x \<longleftrightarrow> registered h reg x \<or> x = Name a" for x
      unfolding registered_iff[OF k1] registered_iff[OF assms(1)] m1 using nm by auto
    from r None have "(\<exists>reg'. AddWithAliases h reg a = (reg', None)) \<longleftrightarrow>
        (\<exists>reg'. AddWithAliases_loop h reg1 a (Aliases a) [] = (reg', None))"
      by (simp add: AddWithAliases_def)
    also have "\<dots> \<longleftrightarrow> distinct (Aliases a) \<and> (\<forall>x\<in>set (Aliases a). \<not> registered h reg1 x)"
      by (rule AddWithAliases_loop_success_iff[OF k1 a1 assms(2)])
    also have "\<dots> \<longleftrightarrow> Name a \<noteq> [] \<and> Command a \<noteq> NilCommand \<and> distinct (Name a # Aliases a) \<and>
       (\<forall>n\<in>set (Name a # Aliases a). \<not> registered h reg n)"
      using free v by (auto simp: step Validate_None)
    finally show ?thesis .
  qed
qed

lemma AddWithAliases_ptr_cases:
  assumes "subcmds (h p) = Some reg"
  shows "(\<exists>h'. AddWithAliases_ptr h p a = Inr h') \<longleftrightarrow> (\<exists>reg'. AddWithAliases h reg a = (reg', None))"
    and "(\<exists>err. AddWithAliases_ptr h p a = Inl (PanicError err)) \<longleftrightarrow>
       \<not> (\<exists>reg'. AddWithAliases h reg a = (reg', None))"
proof -
  obtain reg' e where r: "AddWithAliases h reg a = (reg', e)" by (cases "AddWithAliases h reg a")
  with assms show "(\<exists>h'. AddWithAliases_ptr h p a = Inr h') \<longleftrightarrow> (\<exists>reg'. AddWithAliases h reg a = (reg', None))"
    by (cases e) (simp_all add: AddWithAliases_ptr_def)
  from r assms show "(\<exists>err. AddWithAliases_ptr h p a = Inl (PanicError err)) \<longleftrightarrow>
       \<not> (\<exists>reg'. AddWithAliases h reg a = (reg', None))"
    by (cases e) (simp_all add: AddWithAliases_ptr_def)
qed


lemma AddWithAliases_ptr_iff:
  assumes "subcmds (h p) = Some reg" "Registry_keys reg" "[] \<notin> set (info_Aliases i)"
    "Name a = info_Name i" "Aliases a = info_Aliases i" "Command a \<noteq> NilCommand"
  shows "(\<exists>h'. AddWithAliases_ptr h p a = Inr h') \<longleftrightarrow> names_free h reg i"
    and "(\<exists>err. AddWithAliases_ptr h p a = Inl (PanicError err)) \<longleftrightarrow> \<not> names_free h reg i"
proof -
  from assms have e: "[] \<notin> set (Aliases a)" by simp
  from AddWithAliases_success_iff[OF assms(2) e, of h] assms(4,5,6)
  have "(\<exists>reg'. AddWithAliases h reg a = (reg', None)) \<longleftrightarrow> names_free h reg i"
    by (simp add: names_free_def)
  with AddWithAliases_ptr_cases[where h=h and p=p and reg=reg and a=a, OF assms(1)]
  show "(\<exists>h'. AddWithAliases_ptr h p a = Inr h') \<longleftrightarrow> names_free h reg i"
    and "(\<exists>err. AddWithAliases_ptr h p a = Inl (PanicError err)) \<longleftrightarrow> \<not> names_free h reg i"
    by simp_all
qed


text \<open>
  Claim C10, as stated, fails. The names \<open>x\<close> and \<open>y\<close> are free in the registry of
  \<open>d\<close>, yet registering a command named \<open>x\<close> with the aliases \<open>y\<close> and \<open>y\<close>
  panics; and \<open>help\<close> is registered, yet \<^verbatim>\<open>RegisterDeprecated\<close> of a command named
  \<open>help\<close> returns normally, registering nothing, when the check reports it obsolete.
\<close>

theorem Register_not_exactly_when_names_free:
  "subcmds (example_heap 1) = Some example_D_registry \<and>
   \<not> registered example_heap example_D_registry ''x'' \<and>
   \<not> registered example_heap example_D_registry ''y'' \<and>
   Register example_heap 1 (OtherCommandPtr 40)
     (Some \<lparr>info_Name = ''x'', info_Purpose = [], info_Aliases = [''y'', ''y'']\<rparr>) =
     Inl (PanicError (Errorf ''action %q already added'' [''y''])) \<and>
   registered example_heap example_D_registry ''help'' \<and>
   RegisterDeprecated example_heap 1 (OtherCommandPtr 41)
     (Some \<lparr>info_Name = ''help'', info_Purpose = [], info_Aliases = []\<rparr>)
     (Some \<lparr>Deprecated = (False, []), Obsolete = True\<rparr>) = Inr example_heap"
  by (simp add: example_heap_def example_D_registry_eq registered_def Register_def
      RegisterDeprecated_def newActionFromCommand_def AddWithAliases_ptr_def AddWithAliases_def
      Add_def AddAlias_def Validate_def LookUp_def lookUp_def zeroAction_def NewAlias_def
      remove_def removeString_def removeString_from.simps example_leaf_def example_S_action_def)

text \<open>
  Claim C10, amended. \<^verbatim>\<open>Register\<close> and \<^verbatim>\<open>RegisterDeprecated\<close> return no error: when
  the registry addition fails they panic with the error. For a subcommand whose
  aliases are all non-empty, on a super-command whose registry stores its actions
  under their names, \<^verbatim>\<open>Register\<close>, and \<^verbatim>\<open>RegisterDeprecated\<close> with a check that does
  not report obsolete, return normally exactly when the name is non-empty, the name
  and the aliases are pairwise distinct and none of them is registered, and panic with
  the error of the addition otherwise. With a check that reports obsolete,
  \<^verbatim>\<open>RegisterDeprecated\<close> returns normally and leaves the store as it is, whatever the
  names. A nil subcommand is ignored: both return normally and leave the store as it is.
\<close>

theorem Register_panics_unless_names_free:
  "subcmds (h p) = Some reg \<Longrightarrow> Registry_keys reg \<Longrightarrow> [] \<notin> set (info_Aliases i) \<Longrightarrow>
   subcmd \<noteq> NilCommand \<Longrightarrow> \<not> Obsolete ch \<Longrightarrow> Obsolete ob \<Longrightarrow>
   ((\<exists>h'. Register h p subcmd (Some i) = Inr h') \<longleftrightarrow> names_free h reg i) \<and>
   ((\<exists>err. Register h p subcmd (Some i) = Inl (PanicError err)) \<longleftrightarrow> \<not> names_free h reg i) \<and>
   ((\<exists>h'. RegisterDeprecated h p subcmd (Some i) (Some ch) = Inr h') \<longleftrightarrow> names_free h reg i) \<and>
   ((\<exists>err. RegisterDeprecated h p subcmd (Some i) (Some ch) = Inl (PanicError err)) \<longleftrightarrow>
      \<not> names_free h reg i) \<and>
   RegisterDeprecated h p subcmd (Some i) (Some ob) = Inr h \<and>
   Register h p NilCommand info = Inr h \<and>
   RegisterDeprecated h p NilCommand info check = Inr h"
proof -
  assume sub: "subcmds (h p) = Some reg" and keys: "Registry_keys reg"
    and ne: "[] \<notin> set (info_Aliases i)" and cmd: "subcmd \<noteq> NilCommand"
    and ch: "\<not> Obsolete ch" and ob: "Obsolete ob"
  let ?a = "\<lparr>Name = info_Name i, AliasedName = [], Command = subcmd,
      Aliases = info_Aliases i, Replacement = []\<rparr>"
  let ?d = "if fst (Deprecated ch) then ?a\<lparr>Replacement := snd (Deprecated ch)\<rparr> else ?a"
  from cmd have R: "Register h p subcmd (Some i) = AddWithAliases_ptr h p ?a"
    by (simp add: Register_def newActionFromCommand_def)
  from cmd ch have D: "RegisterDeprecated h p subcmd (Some i) (Some ch) = AddWithAliases_ptr h p ?d"
    by (simp add: RegisterDeprecated_def newActionFromCommand_def)
  from cmd have a: "Name ?a = info_Name i" "Aliases ?a = info_Aliases i" "Command ?a \<noteq> NilCommand"
    by simp_all
  from cmd have d: "Name ?d = info_Name i" "Aliases ?d = info_Aliases i" "Command ?d \<noteq> NilCommand"
    by simp_all
  note ra = AddWithAliases_ptr_iff[where h=h and p=p and reg=reg and i=i and a="?a", OF sub keys ne a]
  note rd = AddWithAliases_ptr_iff[where h=h and p=p and reg=reg and i=i and a="?d", OF sub keys ne d]
  from cmd ob have O: "RegisterDeprecated h p subcmd (Some i) (Some ob) = Inr h"
    by (simp add: RegisterDeprecated_def newActionFromCommand_def)
  have N: "Register h p NilCommand info = Inr h" "RegisterDeprecated h p NilCommand info check = Inr h"
    by (simp_all add: Register_def RegisterDeprecated_def)
  from ra rd O N show ?thesis unfolding R D by blast
qed

lemma example_D_registry_keys: "Registry_keys example_D_registry"
  by (auto simp: Registry_keys_def example_D_registry_eq example_leaf_def example_S_action_def
      split: if_splits)

theorem Register_panics_unless_names_free_witness:
  "subcmds (example_heap 1) = Some example_D_registry \<and>
   Registry_keys example_D_registry \<and>
   [] \<notin> set (info_Aliases \<lparr>info_Name = ''deploy'', info_Purpose = [], info_Aliases = [''dep'']\<rparr>) \<and>
   OtherCommandPtr 40 \<noteq> NilCommand \<and>
   \<not> Obsolete \<lparr>Deprecated = (True, ''install''), Obsolete = False\<rparr> \<and>
   Obsolete \<lparr>Deprecated = (False, []), Obsolete = True\<rparr> \<and>
   names_free example_heap example_D_registry
     \<lparr>info_Name = ''deploy'', info_Purpose = [], info_Aliases = [''dep'']\<rparr> \<and>
   (\<exists>h'. Register example_heap 1 (OtherCommandPtr 40)
      (Some \<lparr>info_Name = ''deploy'', info_Purpose = [], info_Aliases = [''dep'']\<rparr>) = Inr h') \<and>
   (\<exists>h'. RegisterDeprecated example_heap 1 (OtherCommandPtr 40)
      (Some \<lparr>info_Name = ''deploy'', info_Purpose = [], info_Aliases = [''dep'']\<rparr>)
      (Some \<lparr>Deprecated = (True, ''install''), Obsolete = False\<rparr>) = Inr h') \<and>
   RegisterDeprecated example_heap 1 (OtherCommandPtr 40)
      (Some \<lparr>info_Name = ''deploy'', info_Purpose = [], info_Aliases = [''dep'']\<rparr>)
      (Some \<lparr>Deprecated = (False, []), Obsolete = True\<rparr>) = Inr example_heap"
proof -
  let ?i = "\<lparr>info_Name = ''deploy'', info_Purpose = [], info_Aliases = [''dep'']\<rparr>"
  let ?ch = "\<lparr>Deprecated = (True, ''install''), Obsolete = False\<rparr>"
  let ?ob = "\<lparr>Deprecated = (False, []), Obsolete = True\<rparr>"
  have 1: "subcmds (example_heap 1) = Some example_D_registry"
    by (simp add: example_heap_def)
  have 2: "Registry_keys example_D_registry" by (rule example_D_registry_keys)
  have 3: "[] \<notin> set (info_Aliases ?i)" by simp
  have 4: "OtherCommandPtr 40 \<noteq> NilCommand" by simp
  have 5: "\<not> Obsolete ?ch" and 6: "Obsolete ?ob" by simp_all
  have 7: "names_free example_heap example_D_registry ?i"
    by (simp add: names_free_def registered_def LookUp_def lookUp_def example_D_registry_eq
        zeroAction_def)
  from 1 2 3 4 5 6 7
    Register_panics_unless_names_free
      [where h = example_heap and p = 1 and reg = example_D_registry and i = "?i"
         and subcmd = "OtherCommandPtr 40" and ch = "?ch" and ob = "?ob"
         and info = None and check = None, OF 1 2 3 4 5 6]
  show ?thesis by simp
qed


section \<open>Roll-back and the invariants when no alias is empty\<close>

text \<open>
  The defect of the empty alias name is confined to aliases with the empty name. On a
  registry that satisfies the invariants, a failed \<^verbatim>\<open>AddWithAliases\<close> of an action
  whose aliases are all non-empty leaves the registry exactly as it was
  (\<open>AddWithAliases_atomic\<close>), and every sequence of registrations whose aliases are all
  non-empty, whether they succeed or fail, keeps the invariants
  (\<open>Registry_inv_register_each\<close>).
\<close>

lemma removeString_from_remove1:
  "fst (removeString_from items target i) = take i items @ remove1 target (drop i items)"
proof (induction items target i rule: removeString_from.induct)
  case (1 items target i)
  show ?case
  proof (cases "i < length items")
    case False
    then show ?thesis by (simp add: removeString_from.simps[of items target i])
  next
    case lt: True
    then have d: "drop i items = items ! i # drop (Suc i) items"
      by (simp add: Cons_nth_drop_Suc)
    show ?thesis
    proof (cases "items ! i = target")
      case True
      with lt d show ?thesis
        by (auto simp add: removeString_from.simps[of items target i])
    next
      case False
      with lt have "fst (removeString_from items target i) =
          fst (removeString_from items target (i + 1))"
        by (simp add: removeString_from.simps[of items target i])
      also have "\<dots> = take (i + 1) items @ remove1 target (drop (i + 1) items)"
        using 1 lt False by simp
      also have "\<dots> = take i items @ remove1 target (drop i items)"
        using lt False d by (simp add: take_Suc_conv_app_nth)
      finally show ?thesis .
    qed
  qed
qed

lemma removeString_remove1: "fst (removeString items target) = remove1 target items"
  by (simp add: removeString_def removeString_from_remove1)

lemma remove_alias:
  assumes "actions r al = None" "aliases r al = Some n"
  shows "fst (remove r al) = r\<lparr>aliases := (aliases r)(al := None), order := remove1 al (order r)\<rparr>"
  using assms by (simp add: remove_def removeString_remove1)

lemma remove_action:
  assumes "actions r n = Some a"
  shows "fst (remove r n) = r\<lparr>actions := (actions r)(n := None), order := remove1 n (order r)\<rparr>"
  using assms by (simp add: remove_def removeString_remove1)

lemma rollback_aliases:
  assumes "actions r = actions reg"
    and "aliases r = (\<lambda>x. if x \<in> set added then Some n else aliases reg x)"
    and "order r = order reg @ added"
    and "defaultName r = defaultName reg"
    and "Registry.more r = Registry.more reg"
    and "distinct added"
    and "\<forall>al\<in>set added. actions reg al = None \<and> aliases reg al = None \<and> al \<notin> set (order reg)"
  shows "foldl (\<lambda>r a. fst (remove r a)) r added = reg"
  using assms
proof (induction added arbitrary: r)
  case Nil
  show ?case
  proof (simp, rule Registry.equality)
    show "order r = order reg" using Nil.prems(3) by simp
    show "actions r = actions reg" using Nil.prems(1) .
    show "aliases r = aliases reg" using Nil.prems(2) by simp
    show "defaultName r = defaultName reg" using Nil.prems(4) .
    show "Registry.more r = Registry.more reg" using Nil.prems(5) .
  qed
next
  case (Cons al added)
  define r' where "r' = r\<lparr>aliases := (aliases r)(al := None), order := remove1 al (order r)\<rparr>"
  from Cons.prems(1,2,7) have 1: "actions r al = None" "aliases r al = Some n" by simp_all
  then have step: "fst (remove r al) = r'" unfolding r'_def by (rule remove_alias)
  from Cons.prems(6,7) have notin: "al \<notin> set (order reg)" "al \<notin> set added" "aliases reg al = None"
    by simp_all
  have o: "order r' = order reg @ added"
    unfolding r'_def using Cons.prems(3) notin(1) by (simp add: remove1_append)
  have al': "aliases r' = (\<lambda>x. if x \<in> set added then Some n else aliases reg x)"
  proof
    fix x
    show "aliases r' x = (if x \<in> set added then Some n else aliases reg x)"
      unfolding r'_def using Cons.prems(2) notin(2,3) by (cases "x = al") simp_all
  qed
  have a': "actions r' = actions reg" "defaultName r' = defaultName reg"
    "Registry.more r' = Registry.more reg"
    unfolding r'_def using Cons.prems(1,4,5) by simp_all
  have d': "distinct added" using Cons.prems(6) by simp
  have n': "\<forall>al\<in>set added. actions reg al = None \<and> aliases reg al = None \<and> al \<notin> set (order reg)"
    using Cons.prems(7) by simp
  have "foldl (\<lambda>r a. fst (remove r a)) r' added = reg"
    by (rule Cons.IH[OF a'(1) al' o a'(2) a'(3) d' n'])
  with step show ?case by simp
qed


lemma Registry_inv_order:
  "Registry_inv reg \<Longrightarrow> actions reg x = None \<Longrightarrow> aliases reg x = None \<Longrightarrow> x \<notin> set (order reg)"
  unfolding Registry_inv_def by auto

lemma Registry_inv_keys: "Registry_inv reg \<Longrightarrow> Registry_keys reg"
  unfolding Registry_inv_def by simp

lemma AddWithAliases_loop_failure:
  assumes inv: "Registry_inv reg"
    and free: "actions reg n = None" "aliases reg n = None" "n \<noteq> []" "Name a = n"
    and state: "actions r = (actions reg)(n \<mapsto> a)"
      "aliases r = (\<lambda>x. if x \<in> set added then Some n else aliases reg x)"
      "order r = order reg @ n # added"
      "defaultName r = defaultName reg" "Registry.more r = Registry.more reg"
    and added: "distinct added"
      "\<forall>al\<in>set added. al \<noteq> n \<and> actions reg al = None \<and> aliases reg al = None"
    and nonempty: "[] \<notin> set als"
    and fails: "AddWithAliases_loop h r a als added = (reg', Some err)"
  shows "reg' = reg"
  using state added nonempty fails
proof (induction als arbitrary: r added)
  case Nil
  then show ?case by simp
next
  case (Cons al als)
  obtain r1 e where step: "AddAlias h r (Name a) al = (r1, e)"
    by (cases "AddAlias h r (Name a) al")
  have keys: "Registry_keys r"
    unfolding Registry_keys_def
  proof (rule conjI; intro allI impI)
    fix k x assume "actions r k = Some x"
    with Cons.prems(1) free Registry_keys_action[OF Registry_inv_keys[OF inv]]
    show "Name x = k \<and> k \<noteq> []" by (cases "k = n") auto
  next
    fix k c assume "aliases r k = Some c"
    with Cons.prems(1,2) Registry_keys_alias[OF Registry_inv_keys[OF inv]]
    show "actions r c \<noteq> None" by (cases "k \<in> set added") auto
  qed
  show ?case
  proof (cases e)
    case (Some err')
    with step have r1: "r1 = r" by (simp add: AddAlias_failure)
    from Cons.prems(1) free have an: "actions r n = Some a" by simp
    define r' where "r' = r\<lparr>actions := (actions r)(n := None), order := remove1 n (order r)\<rparr>"
    from an have rm: "fst (remove r n) = r'" unfolding r'_def by (rule remove_action)
    from step Some r1 Cons.prems(9) free(4) rm
    have res: "reg' = foldl (\<lambda>r a. fst (remove r a)) r' added" by simp
    have nn: "n \<notin> set (order reg)" using inv free(1,2) by (rule Registry_inv_order)
    have 1: "actions r' = actions reg"
      unfolding r'_def using Cons.prems(1) free(1) by (auto simp: fun_eq_iff)
    have 2: "aliases r' = (\<lambda>x. if x \<in> set added then Some n else aliases reg x)"
      unfolding r'_def using Cons.prems(2) by simp
    have 3: "order r' = order reg @ added"
      unfolding r'_def using Cons.prems(3) nn by (simp add: remove1_append)
    have 4: "defaultName r' = defaultName reg" "Registry.more r' = Registry.more reg"
      unfolding r'_def using Cons.prems(4,5) by simp_all
    have 5: "\<forall>al\<in>set added. actions reg al = None \<and> aliases reg al = None \<and> al \<notin> set (order reg)"
      using Cons.prems(7) Registry_inv_order[OF inv] by blast
    from res rollback_aliases[OF 1 2 3 4(1) 4(2) Cons.prems(6) 5] show ?thesis by simp
  next
    case None
    with step free(4) have nreg: "\<not> registered h r al"
      and r1: "r1 = r\<lparr>aliases := (aliases r)(al \<mapsto> n), order := order r @ [al]\<rparr>"
      by (simp_all add: AddAlias_success)
    from Cons.prems(8) have al: "al \<noteq> []" by auto
    from nreg al have f: "actions r al = None" "aliases r al = None"
      unfolding registered_iff[OF keys] by simp_all
    from f(1) Cons.prems(1) have f1: "al \<noteq> n" "actions reg al = None"
      by (auto split: if_splits)
    from f(2) Cons.prems(2) have f2: "al \<notin> set added" "aliases reg al = None"
      by (auto split: if_splits dest: fun_cong[where x=al])
    have s1: "actions r1 = (actions reg)(n \<mapsto> a)" by (simp add: r1 Cons.prems(1) fun_eq_iff)
    have s2: "aliases r1 = (\<lambda>x. if x \<in> set (added @ [al]) then Some n else aliases reg x)"
      by (auto simp: r1 Cons.prems(2) fun_eq_iff)
    have s3: "order r1 = order reg @ n # (added @ [al])" by (simp add: r1 Cons.prems(3))
    have s4: "defaultName r1 = defaultName reg" "Registry.more r1 = Registry.more reg"
      by (simp_all add: r1 Cons.prems(4,5))
    have s5: "distinct (added @ [al])" using Cons.prems(6) f2(1) by simp
    have s6: "\<forall>x\<in>set (added @ [al]). x \<noteq> n \<and> actions reg x = None \<and> aliases reg x = None"
      using Cons.prems(7) f1 f2(2) by auto
    have s7: "[] \<notin> set als" using Cons.prems(8) by simp
    from step None Cons.prems(9)
    have s8: "AddWithAliases_loop h r1 a als (added @ [al]) = (reg', Some err)" by simp
    show ?thesis by (rule Cons.IH[OF s1 s2 s3 s4(1) s4(2) s5 s6 s7 s8])
  qed
qed


lemma AddWithAliases_atomic:
  assumes inv: "Registry_inv reg" and ne: "[] \<notin> set (Aliases a)"
    and fails: "AddWithAliases h reg a = (reg', Some err)"
  shows "reg' = reg"
proof -
  obtain r e where add: "Add h reg a = (r, e)" by (cases "Add h reg a")
  show ?thesis
  proof (cases e)
    case (Some err')
    with add fails show ?thesis by (auto simp: AddWithAliases_def dest: Add_failure)
  next
    case None
    with add have v: "Validate a = None" and nreg: "\<not> registered h reg (Name a)"
      and r: "r = reg\<lparr>actions := (actions reg)(Name a \<mapsto> a), order := order reg @ [Name a]\<rparr>"
      by (simp_all add: Add_success)
    from v have nm: "Name a \<noteq> []" by (simp add: Validate_def split: if_splits)
    from nreg nm have free: "actions reg (Name a) = None" "aliases reg (Name a) = None"
      unfolding registered_iff[OF Registry_inv_keys[OF inv]] by simp_all
    from add None fails have loop: "AddWithAliases_loop h r a (Aliases a) [] = (reg', Some err)"
      by (simp add: AddWithAliases_def)
    show ?thesis
      by (rule AddWithAliases_loop_failure[OF inv free nm refl _ _ _ _ _ _ _ ne loop])
        (simp_all add: r)
  qed
qed

lemma Registry_inv_Add:
  assumes "Registry_inv reg" "Add h reg a = (reg', e)"
  shows "Registry_inv reg'"
proof (cases e)
  case (Some err)
  with assms show ?thesis by (auto dest: Add_failure)
next
  case None
  with assms(2) have v: "Validate a = None" and nreg: "\<not> registered h reg (Name a)"
    and r: "reg' = reg\<lparr>actions := (actions reg)(Name a \<mapsto> a), order := order reg @ [Name a]\<rparr>"
    by (simp_all add: Add_success)
  from v have nm: "Name a \<noteq> []" by (simp add: Validate_def split: if_splits)
  from nreg nm have free: "actions reg (Name a) = None" "aliases reg (Name a) = None"
    unfolding registered_iff[OF Registry_inv_keys[OF assms(1)]] by simp_all
  from Registry_keys_Add[OF Registry_inv_keys[OF assms(1)] nm] r have "Registry_keys reg'" by simp
  moreover from assms(1) free r have "dom (actions reg') \<inter> dom (aliases reg') = {}"
    by (auto simp: Registry_inv_def)
  moreover from assms(1) r have "set (order reg') = dom (actions reg') \<union> dom (aliases reg')"
    by (auto simp: Registry_inv_def)
  moreover from assms(1) r Registry_inv_order[OF assms(1) free] have "distinct (order reg')"
    by (auto simp: Registry_inv_def)
  ultimately show ?thesis by (simp add: Registry_inv_def)
qed

lemma Registry_inv_AddAlias:
  assumes "Registry_inv reg" "al \<noteq> []" "AddAlias h reg n al = (reg', e)"
  shows "Registry_inv reg'"
proof (cases e)
  case (Some err)
  with assms show ?thesis by (auto dest: AddAlias_failure)
next
  case None
  with assms(3) have tgt: "actions reg n \<noteq> None" and nreg: "\<not> registered h reg al"
    and r: "reg' = reg\<lparr>aliases := (aliases reg)(al \<mapsto> n), order := order reg @ [al]\<rparr>"
    by (simp_all add: AddAlias_success)
  from nreg assms(2) have free: "actions reg al = None" "aliases reg al = None"
    unfolding registered_iff[OF Registry_inv_keys[OF assms(1)]] by simp_all
  from Registry_keys_AddAlias[OF Registry_inv_keys[OF assms(1)] tgt] r have "Registry_keys reg'"
    by simp
  moreover from assms(1) free r have "dom (actions reg') \<inter> dom (aliases reg') = {}"
    by (auto simp: Registry_inv_def)
  moreover from assms(1) r have "set (order reg') = dom (actions reg') \<union> dom (aliases reg')"
    by (auto simp: Registry_inv_def)
  moreover from assms(1) r Registry_inv_order[OF assms(1) free] have "distinct (order reg')"
    by (auto simp: Registry_inv_def)
  ultimately show ?thesis by (simp add: Registry_inv_def)
qed

lemma Registry_inv_loop:
  assumes "Registry_inv reg" "[] \<notin> set als" "AddWithAliases_loop h reg a als added = (reg', None)"
  shows "Registry_inv reg'"
  using assms
proof (induction als arbitrary: reg added)
  case Nil
  then show ?case by simp
next
  case (Cons al als)
  obtain r e where step: "AddAlias h reg (Name a) al = (r, e)"
    by (cases "AddAlias h reg (Name a) al")
  with Cons.prems(3) have e: "e = None" by (cases e) auto
  from Cons.prems(2) have al: "al \<noteq> []" and rest: "[] \<notin> set als" by auto
  from Registry_inv_AddAlias[OF Cons.prems(1) al step] have inv: "Registry_inv r" .
  from step e Cons.prems(3) have "AddWithAliases_loop h r a als (added @ [al]) = (reg', None)"
    by simp
  from Cons.IH[OF inv rest this] show ?case .
qed

lemma Registry_inv_AddWithAliases:
  assumes inv: "Registry_inv reg" and ne: "[] \<notin> set (Aliases a)"
    and res: "AddWithAliases h reg a = (reg', e)"
  shows "Registry_inv reg'"
proof (cases e)
  case (Some err)
  with res have "AddWithAliases h reg a = (reg', Some err)" by simp
  from AddWithAliases_atomic[OF inv ne this] inv show ?thesis by simp
next
  case None
  obtain r e1 where add: "Add h reg a = (r, e1)" by (cases "Add h reg a")
  with res None have e1: "e1 = None" by (cases e1) (auto simp: AddWithAliases_def)
  from add e1 res None have loop: "AddWithAliases_loop h r a (Aliases a) [] = (reg', None)"
    by (simp add: AddWithAliases_def)
  from Registry_inv_loop[OF Registry_inv_Add[OF inv add] ne loop] show ?thesis .
qed

lemma Registry_inv_register:
  assumes "Registry_inv reg" "[] \<notin> set (alias_names r)"
  shows "Registry_inv (fst (register h reg r))"
proof (cases r)
  case (Registration_Add a)
  with assms(1) Registry_inv_Add[of reg h a] show ?thesis by (cases "Add h reg a") simp
next
  case (Registration_AddAlias n al)
  with assms Registry_inv_AddAlias[of reg al h n] show ?thesis
    by (cases "AddAlias h reg n al") simp
next
  case (Registration_AddWithAliases a)
  with assms Registry_inv_AddWithAliases[of reg a h] show ?thesis
    by (cases "AddWithAliases h reg a") simp
qed

lemma Registry_inv_empty: "Registry_inv emptyRegistry"
  by (simp add: Registry_inv_def Registry_keys_def emptyRegistry_def)

lemma Registry_inv_register_each:
  assumes "Registry_inv reg" "\<forall>r\<in>set rs. [] \<notin> set (alias_names r)"
  shows "Registry_inv (register_each h reg rs)"
  using assms
proof (induction rs arbitrary: reg)
  case Nil
  then show ?case by simp
next
  case (Cons r rs)
  from Cons.prems have "Registry_inv (fst (register h reg r))"
    by (simp add: Registry_inv_register)
  with Cons.IH Cons.prems(2) show ?case by simp
qed

end
